theory Spec2Isabelle
  imports Main "HOL-Library.AList" "HOL-Library.Char_ord" "HOL-Library.List_Lexorder"
begin

section \<open>Origami Thought Protocol: the chat client of main.py\<close>

text \<open>
  The development embeds the session store (class ChatHistory), the history browser
  (view_history, display_session), the file selector and the command loop (chat_loop) of
  main.py. Python's effects are explicit: the history directory, the pending results of
  input(), and a log of what the program did are fields of a \<open>world\<close>; the parts of the
  outside that the program only queries (the clock, whether a write, an unlink, an upload
  or a call of the model succeeds, what pathlib returns or raises for a path) are functions
  of an environment \<open>env\<close>; those whose answer may change from one query to the next are
  indexed by a counter of the queries made so far. Every exception that the source raises or
  lets through is a value of type \<open>exn\<close>.

  Strings are Isabelle strings, so a character is a code point below 256. The message and
  metadata dictionaries are JSON objects, as json.dump writes and json.load returns them;
  a file of the history directory holds such a value, or cannot be read, or cannot be
  parsed. File names stand for paths inside the history directory, which main() creates
  before chat_loop runs. Of the output, the log keeps the lines that report an outcome,
  without their leading blank lines and without the text of an operating-system error;
  the lines that render data are kept as the data they render; banners, menus, prompts
  and progress lines are left out.
\<close>

subsection \<open>Python strings\<close>

definition is_space :: "char \<Rightarrow> bool" where
  \<comment> \<open>str.isspace on code points below 256\<close>
  "is_space c = ((of_char c :: nat) \<in> {9, 10, 11, 12, 13, 28, 29, 30, 31, 32, 133, 160})"

definition strip_chars :: "(char \<Rightarrow> bool) \<Rightarrow> string \<Rightarrow> string" where
  "strip_chars P s = rev (dropWhile P (rev (dropWhile P s)))"

definition strip :: "string \<Rightarrow> string" where
  \<comment> \<open>str.strip()\<close>
  "strip s = strip_chars is_space s"

definition strip_quotes :: "string \<Rightarrow> string" where
  \<comment> \<open>str.strip("'\"")\<close>
  "strip_quotes s = strip_chars (\<lambda>c. (of_char c :: nat) = 39 \<or> (of_char c :: nat) = 34) s"

definition lower_char :: "char \<Rightarrow> char" where
  \<comment> \<open>str.lower on one code point below 256: A-Z, and the Latin-1 capitals but the
     multiplication sign\<close>
  "lower_char c = (let n = (of_char c :: nat) in
     if (65 \<le> n \<and> n \<le> 90) \<or> (192 \<le> n \<and> n \<le> 222 \<and> n \<noteq> 215)
     then char_of (n + 32) else c)"

definition lower :: "string \<Rightarrow> string" where
  "lower s = map lower_char s"

definition upper_char :: "char \<Rightarrow> char" where
  \<comment> \<open>str.upper on one code point below 256 whose capital is one code point below 256\<close>
  "upper_char c = (let n = (of_char c :: nat) in
     if (97 \<le> n \<and> n \<le> 122) \<or> (224 \<le> n \<and> n \<le> 254 \<and> n \<noteq> 247)
     then char_of (n - 32) else c)"

definition capitalize :: "string \<Rightarrow> string" where
  \<comment> \<open>str.capitalize()\<close>
  "capitalize s = (case s of [] \<Rightarrow> [] | c # cs \<Rightarrow> upper_char c # lower cs)"

definition digit :: "nat \<Rightarrow> char" where
  "digit n = char_of (48 + n mod 10)"

definition pad2 :: "nat \<Rightarrow> string" where
  "pad2 n = [digit (n div 10), digit n]"

definition pad4 :: "nat \<Rightarrow> string" where
  "pad4 n = [digit (n div 1000), digit (n div 100), digit (n div 10), digit n]"

definition pad6 :: "nat \<Rightarrow> string" where
  "pad6 n = [digit (n div 100000), digit (n div 10000), digit (n div 1000),
             digit (n div 100), digit (n div 10), digit n]"

fun digit_val :: "char \<Rightarrow> nat option" where
  "digit_val c = (let n = (of_char c :: nat) in
     if 48 \<le> n \<and> n \<le> 57 then Some (n - 48) else None)"

fun parse_digits :: "string \<Rightarrow> nat \<Rightarrow> nat option" where
  "parse_digits [] acc = Some acc"
| "parse_digits (c # cs) acc =
     (if c = CHR ''_'' then
        (case cs of
           [] \<Rightarrow> None
         | d # ds \<Rightarrow> (case digit_val d of None \<Rightarrow> None | Some v \<Rightarrow> parse_digits cs acc))
      else (case digit_val c of
              None \<Rightarrow> None
            | Some v \<Rightarrow> parse_digits cs (10 * acc + v)))"

definition unsigned_int :: "string \<Rightarrow> int option" where
  \<comment> \<open>digits with single underscores between them; more than 4300 digits are refused
     (the default of sys.int_max_str_digits)\<close>
  "unsigned_int s =
     (case s of
        [] \<Rightarrow> None
      | c # cs \<Rightarrow> (case digit_val c of
                     None \<Rightarrow> None
                   | Some v \<Rightarrow>
                       if 4300 < length (filter (\<lambda>d. d \<noteq> CHR ''_'') s) then None
                       else map_option int (parse_digits s 0)))"

definition py_int :: "string \<Rightarrow> int option" where
  \<comment> \<open>int(s) for an already stripped s: None stands for ValueError\<close>
  "py_int s =
     (case s of
        [] \<Rightarrow> None
      | c # cs \<Rightarrow>
          if c = CHR ''-'' then map_option uminus (unsigned_int cs)
          else if c = CHR ''+'' then unsigned_int cs
          else unsigned_int s)"

subsection \<open>Values, clock, environment, world\<close>

datatype json =
    JNull
  | JBool bool
  | JInt int
  | JStr string
  | JArr "json list"
  | JObj "(string \<times> json) list"

definition truthy :: "json \<Rightarrow> bool" where
  \<comment> \<open>Python's truth value of a loaded JSON value\<close>
  "truthy j = (case j of
      JNull \<Rightarrow> False
    | JBool b \<Rightarrow> b
    | JInt n \<Rightarrow> n \<noteq> 0
    | JStr s \<Rightarrow> s \<noteq> []
    | JArr xs \<Rightarrow> xs \<noteq> []
    | JObj kvs \<Rightarrow> kvs \<noteq> [])"

definition type_name :: "json \<Rightarrow> string" where
  "type_name j = (case j of
      JNull \<Rightarrow> ''NoneType''
    | JBool b \<Rightarrow> ''bool''
    | JInt n \<Rightarrow> ''int''
    | JStr s \<Rightarrow> ''str''
    | JArr xs \<Rightarrow> ''list''
    | JObj kvs \<Rightarrow> ''dict'')"

definition dict_get :: "(string \<times> json) list \<Rightarrow> string \<Rightarrow> json \<Rightarrow> json" where
  \<comment> \<open>d.get(k, default)\<close>
  "dict_get d k dflt = (case map_of d k of None \<Rightarrow> dflt | Some v \<Rightarrow> v)"

record datetime =
  year :: nat
  month :: nat
  day :: nat
  hour :: nat
  minute :: nat
  second :: nat
  microsecond :: nat

definition strftime_id :: "datetime \<Rightarrow> string" where
  \<comment> \<open>strftime("%Y%m%d_%H%M%S"), years 1000 to 9999\<close>
  "strftime_id d = pad4 (year d) @ pad2 (month d) @ pad2 (day d) @ ''_''
                   @ pad2 (hour d) @ pad2 (minute d) @ pad2 (second d)"

definition isoformat :: "datetime \<Rightarrow> string" where
  "isoformat d = pad4 (year d) @ ''-'' @ pad2 (month d) @ ''-'' @ pad2 (day d) @ ''T''
                 @ pad2 (hour d) @ '':'' @ pad2 (minute d) @ '':'' @ pad2 (second d)
                 @ (if microsecond d = 0 then [] else ''.'' @ pad6 (microsecond d))"

datatype exn = KeyboardInterrupt | Exception string

datatype input_event = Line string | Interrupt

datatype write_outcome = WriteOk | OpenFails | DumpFails

datatype part = FilePart nat | TextPart string

datatype gen_outcome = Reply string | Failure string | Interrupted

datatype upload_outcome = Uploaded nat | UploadFails string | UploadInterrupted

datatype file_content = Unreadable | Malformed | Parsed json

record env =
  now :: "nat \<Rightarrow> datetime"
  write_result :: "nat \<Rightarrow> write_outcome"
  unlink_result :: "nat \<Rightarrow> bool"
  generate :: "nat \<Rightarrow> string \<Rightarrow> part list \<Rightarrow> gen_outcome"
  upload :: "nat \<Rightarrow> string \<Rightarrow> string \<Rightarrow> upload_outcome"
  expanduser :: "string \<Rightarrow> string + string"
  path_exists :: "string \<Rightarrow> string + bool"
  path_is_file :: "string \<Rightarrow> string + bool"
  path_name :: "string \<Rightarrow> string"
  path_suffix :: "string \<Rightarrow> string"

datatype event =
    Say string
  | Wrote string json
  | WriteFailed string json
  | LoadError string
  | DeleteError string
  | Deleted string
  | ListLine nat json json json
  | Shown json json nat
  | ShownMessage string json json bool
  | Exported string "json list"
  | ExportFailed string
  | Invoke string "part list"
  | UploadCall string string

record world =
  hist_dir :: "(string \<times> file_content) list"
  inputs :: "input_event list"
  trace :: "event list"
  tick :: nat

definition emit :: "event \<Rightarrow> world \<Rightarrow> world" where
  "emit e w = w\<lparr>trace := trace w @ [e]\<rparr>"

definition advance :: "world \<Rightarrow> world" where
  "advance w = w\<lparr>tick := Suc (tick w)\<rparr>"

definition read_input :: "world \<Rightarrow> (exn + string) \<times> world" where
  \<comment> \<open>input(): the next pending line, Ctrl-C, or end of input\<close>
  "read_input w = (case inputs w of
      [] \<Rightarrow> (Inl (Exception ''EOF when reading a line''), w)
    | Interrupt # rest \<Rightarrow> (Inl KeyboardInterrupt, w\<lparr>inputs := rest\<rparr>)
    | Line s # rest \<Rightarrow> (Inr s, w\<lparr>inputs := rest\<rparr>))"

subsection \<open>class ChatHistory\<close>

record ChatHistory =
  messages :: "json list"
  session_id :: string
  session_file :: string
  metadata :: "(string \<times> json) list"

definition init :: "env \<Rightarrow> world \<Rightarrow> ChatHistory \<times> world" where
  \<comment> \<open>ChatHistory.__init__: two readings of the clock, nothing written\<close>
  "init E w =
     (let sid = strftime_id (now E (tick w));
          w1 = advance w;
          cr = isoformat (now E (tick w1));
          w2 = advance w1
      in (\<lparr>messages = [], session_id = sid,
           session_file = ''chat_'' @ sid @ ''.json'',
           metadata = [(''created'', JStr cr), (''model'', JNull), (''message_count'', JInt 0)]\<rparr>,
          w2))"

definition record_of :: "ChatHistory \<Rightarrow> json" where
  "record_of h = JObj [(''metadata'', JObj (metadata h)), (''messages'', JArr (messages h))]"

definition save :: "env \<Rightarrow> ChatHistory \<Rightarrow> world \<Rightarrow> world" where
  \<comment> \<open>ChatHistory._save: the exception of a failed write is caught and reported\<close>
  "save E h w =
     (let w1 = advance w in
      case write_result E (tick w) of
        WriteOk \<Rightarrow>
          emit (Wrote (session_file h) (record_of h))
            (w1\<lparr>hist_dir := AList.update (session_file h) (Parsed (record_of h)) (hist_dir w1)\<rparr>)
      | OpenFails \<Rightarrow>
          emit (Say ''Warning: Could not save history'')
            (emit (WriteFailed (session_file h) (record_of h)) w1)
      | DumpFails \<Rightarrow>
          emit (Say ''Warning: Could not save history'')
            (emit (WriteFailed (session_file h) (record_of h))
               (w1\<lparr>hist_dir := AList.update (session_file h) Malformed (hist_dir w1)\<rparr>)))"

definition new_message :: "string \<Rightarrow> string \<Rightarrow> string \<Rightarrow> bool \<Rightarrow> json" where
  "new_message ts role content has_file =
     JObj [(''timestamp'', JStr ts), (''role'', JStr role), (''content'', JStr content),
           (''has_attachment'', JBool has_file)]"

definition add_message ::
  "env \<Rightarrow> ChatHistory \<Rightarrow> string \<Rightarrow> string \<Rightarrow> bool \<Rightarrow> world \<Rightarrow> ChatHistory \<times> world" where
  "add_message E h role content has_file w =
     (let message = new_message (isoformat (now E (tick w))) role content has_file;
          w1 = advance w;
          msgs = messages h @ [message];
          h1 = h\<lparr>messages := msgs,
                 metadata := AList.update ''message_count'' (JInt (int (length msgs))) (metadata h)\<rparr>
      in (h1, save E h1 w1))"

definition set_model :: "env \<Rightarrow> ChatHistory \<Rightarrow> string \<Rightarrow> world \<Rightarrow> ChatHistory \<times> world" where
  "set_model E h m w =
     (let h1 = h\<lparr>metadata := AList.update ''model'' (JStr m) (metadata h)\<rparr>
      in (h1, save E h1 w))"

definition glob_chat :: "string \<Rightarrow> bool" where
  \<comment> \<open>the pattern chat_*.json\<close>
  "glob_chat name = (10 \<le> length name \<and> take 5 name = ''chat_''
                     \<and> drop (length name - 5) name = ''.json'')"

definition list_sessions :: "world \<Rightarrow> string list" where
  \<comment> \<open>sorted(HISTORY_DIR.glob("chat_*.json"), reverse=True)\<close>
  "list_sessions w = rev (sort (filter glob_chat (map fst (hist_dir w))))"

definition load_session :: "string \<Rightarrow> world \<Rightarrow> json option \<times> world" where
  \<comment> \<open>None is Python's None: a failed open or parse (reported), or the JSON text null\<close>
  "load_session name w =
     (case map_of (hist_dir w) name of
        Some (Parsed j) \<Rightarrow> ((if j = JNull then None else Some j), w)
      | _ \<Rightarrow> (None, emit (LoadError name) w))"

definition delete_session :: "env \<Rightarrow> string \<Rightarrow> world \<Rightarrow> bool \<times> world" where
  "delete_session E name w =
     (case map_of (hist_dir w) name of
        None \<Rightarrow> (False, emit (DeleteError name) w)
      | Some c \<Rightarrow>
          (let w1 = advance w in
           if unlink_result E (tick w)
           then (True, emit (Deleted name) (w1\<lparr>hist_dir := AList.delete name (hist_dir w1)\<rparr>))
           else (False, emit (DeleteError name) w1)))"

definition create :: "env \<Rightarrow> string \<Rightarrow> world \<Rightarrow> ChatHistory \<times> world" where
  \<comment> \<open>lines 414 and 415 of chat_loop: ChatHistory() followed by set_model(model)\<close>
  "create E m w = (let (h, w1) = init E w in set_model E h m w1)"

subsection \<open>The history browser\<close>

definition quoted :: "string \<Rightarrow> string" where
  "quoted s = char_of (39::nat) # s @ [char_of (39::nat)]"

definition no_attribute :: "json \<Rightarrow> string \<Rightarrow> exn" where
  \<comment> \<open>AttributeError, in CPython's wording\<close>
  "no_attribute j a = Exception (quoted (type_name j) @ '' object has no attribute '' @ quoted a)"

definition not_subscriptable :: "json \<Rightarrow> exn" where
  \<comment> \<open>TypeError of j[:n]; a dict rejects the slice as a key\<close>
  "not_subscriptable j =
     (case j of
        JObj d \<Rightarrow> Exception (''unhashable type: '' @ quoted ''slice'')
      | _ \<Rightarrow> Exception (quoted (type_name j) @ '' object is not subscriptable''))"

definition replace_T :: "string \<Rightarrow> string" where
  \<comment> \<open>s.replace("T", " ")\<close>
  "replace_T s = map (\<lambda>c. if c = CHR ''T'' then CHR '' '' else c) s"

definition summary_line :: "nat \<Rightarrow> json \<Rightarrow> exn + event" where
  \<comment> \<open>lines 165 to 169 of view_history, for one loaded record\<close>
  "summary_line i data =
     (case data of
        JObj d \<Rightarrow>
          (case dict_get d ''metadata'' (JObj []) of
             JObj meta \<Rightarrow>
               (case dict_get meta ''created'' (JStr ''Unknown'') of
                  JStr c \<Rightarrow>
                    Inr (ListLine i (JStr (replace_T (take 16 c)))
                           (dict_get meta ''model'' (JStr ''Unknown''))
                           (dict_get meta ''message_count'' (JInt 0)))
                | JArr xs \<Rightarrow> Inl (no_attribute (JArr xs) ''replace'')
                | other \<Rightarrow> Inl (not_subscriptable other))
           | other \<Rightarrow> Inl (no_attribute other ''get''))
      | other \<Rightarrow> Inl (no_attribute other ''get''))"

fun list_lines :: "nat \<Rightarrow> string list \<Rightarrow> world \<Rightarrow> (exn + unit) \<times> world" where
  \<comment> \<open>the loop over enumerate(sessions[:10], 1)\<close>
  "list_lines i [] w = (Inr (), w)"
| "list_lines i (p # ps) w =
     (case load_session p w of
        (None, w1) \<Rightarrow> list_lines (Suc i) ps w1
      | (Some data, w1) \<Rightarrow>
          if \<not> truthy data then list_lines (Suc i) ps w1
          else (case summary_line i data of
                  Inl e \<Rightarrow> (Inl e, w1)
                | Inr ev \<Rightarrow> list_lines (Suc i) ps (emit ev w1)))"

definition py_len :: "json \<Rightarrow> exn + nat" where
  "py_len j =
     (case j of
        JStr s \<Rightarrow> Inr (length s)
      | JArr xs \<Rightarrow> Inr (length xs)
      | JObj d \<Rightarrow> Inr (length d)
      | _ \<Rightarrow> Inl (Exception (''object of type '' @ quoted (type_name j) @ '' has no len()'')))"

definition py_iter :: "json \<Rightarrow> json list" where
  \<comment> \<open>what a for loop visits in a value that has a length\<close>
  "py_iter j =
     (case j of
        JStr s \<Rightarrow> map (\<lambda>c. JStr [c]) s
      | JArr xs \<Rightarrow> xs
      | JObj d \<Rightarrow> map (\<lambda>kv. JStr (fst kv)) d
      | _ \<Rightarrow> [])"

definition py_slice :: "nat \<Rightarrow> json \<Rightarrow> exn + json" where
  \<comment> \<open>j[:n]\<close>
  "py_slice n j =
     (case j of
        JStr s \<Rightarrow> Inr (JStr (take n s))
      | JArr xs \<Rightarrow> Inr (JArr (take n xs))
      | _ \<Rightarrow> Inl (not_subscriptable j))"

definition show_message :: "json \<Rightarrow> exn + event" where
  \<comment> \<open>lines 226 to 232 of display_session, for one message\<close>
  "show_message msg =
     (case msg of
        JObj m \<Rightarrow>
          (case dict_get m ''role'' (JStr ''unknown'') of
             JStr role \<Rightarrow>
               (case py_slice 19 (dict_get m ''timestamp'' (JStr [])) of
                  Inl e \<Rightarrow> Inl e
                | Inr (JStr ts) \<Rightarrow>
                    (case py_slice 500 (dict_get m ''content'' (JStr [])) of
                       Inl e \<Rightarrow> Inl e
                     | Inr shown \<Rightarrow>
                         Inr (ShownMessage (replace_T ts) (JStr role) shown
                                (truthy (dict_get m ''has_attachment'' JNull))))
                | Inr other \<Rightarrow> Inl (no_attribute other ''replace''))
           | other \<Rightarrow> Inl (no_attribute other ''upper''))
      | other \<Rightarrow> Inl (no_attribute other ''get''))"

fun show_messages :: "json list \<Rightarrow> world \<Rightarrow> (exn + unit) \<times> world" where
  "show_messages [] w = (Inr (), w)"
| "show_messages (m # ms) w =
     (case show_message m of
        Inl e \<Rightarrow> (Inl e, w)
      | Inr ev \<Rightarrow> show_messages ms (emit ev w))"

definition display_session :: "string \<Rightarrow> world \<Rightarrow> (exn + unit) \<times> world" where
  "display_session name w =
     (case load_session name w of
        (None, w1) \<Rightarrow> (Inr (), w1)
      | (Some data, w1) \<Rightarrow>
          if \<not> truthy data then (Inr (), w1)
          else
            (case data of
               JObj d \<Rightarrow>
                 (case dict_get d ''metadata'' (JObj []) of
                    JObj meta \<Rightarrow>
                      (let msgs = dict_get d ''messages'' (JArr []) in
                       case py_slice 10 (dict_get meta ''created'' (JStr [])) of
                         Inl e \<Rightarrow> (Inl e, w1)
                       | Inr cr \<Rightarrow>
                           (case py_len msgs of
                              Inl e \<Rightarrow> (Inl e, w1)
                            | Inr n \<Rightarrow>
                                (case show_messages (py_iter msgs)
                                        (emit (Shown cr (dict_get meta ''model'' (JStr ''Unknown'')) n) w1) of
                                   (Inl e, w2) \<Rightarrow> (Inl e, w2)
                                 | (Inr u, w2) \<Rightarrow>
                                     (case read_input w2 of
                                        (Inl e, w3) \<Rightarrow> (Inl e, w3)
                                      | (Inr l, w3) \<Rightarrow> (Inr (), w3)))))
                  | other \<Rightarrow> (Inl (no_attribute other ''get''), w1))
             | other \<Rightarrow> (Inl (no_attribute other ''get''), w1)))"

fun delete_all :: "env \<Rightarrow> string list \<Rightarrow> world \<Rightarrow> world" where
  "delete_all E [] w = w"
| "delete_all E (p # ps) w = delete_all E ps (snd (delete_session E p w))"

definition index_ok :: "int \<Rightarrow> 'a list \<Rightarrow> bool" where
  \<comment> \<open>0 <= idx < len(xs)\<close>
  "index_ok idx xs = (0 \<le> idx \<and> idx < int (length xs))"

definition view_history :: "env \<Rightarrow> world \<Rightarrow> (exn + unit) \<times> world" where
  "view_history E w =
     (let sessions = list_sessions w in
      if sessions = [] then (Inr (), emit (Say ''No saved conversations found.'') w)
      else
        case list_lines 1 (take 10 sessions) w of
          (Inl e, w1) \<Rightarrow> (Inl e, w1)
        | (Inr u, w1) \<Rightarrow>
            (case read_input w1 of
               (Inl e, w2) \<Rightarrow> (Inl e, w2)
             | (Inr l, w2) \<Rightarrow>
                 (let choice = lower (strip l) in
                  if choice = ''0'' \<or> choice = [] then (Inr (), w2)
                  else if choice = ''d'' then
                    (case read_input w2 of
                       (Inl e, w3) \<Rightarrow> (Inl e, w3)
                     | (Inr l2, w3) \<Rightarrow>
                         (case py_int (strip l2) of
                            None \<Rightarrow> (Inr (), emit (Say ''Invalid selection'') w3)
                          | Some k \<Rightarrow>
                              if index_ok (k - 1) sessions then
                                (case read_input w3 of
                                   (Inl e, w4) \<Rightarrow> (Inl e, w4)
                                 | (Inr l3, w4) \<Rightarrow>
                                     if lower (strip l3) = ''y'' then
                                       (case delete_session E (sessions ! nat (k - 1)) w4 of
                                          (True, w5) \<Rightarrow> (Inr (), emit (Say ''[OK] Session deleted'') w5)
                                        | (False, w5) \<Rightarrow> (Inr (), emit (Say ''[ERROR] Failed to delete'') w5))
                                     else (Inr (), w4))
                              else (Inr (), w3)))
                  else if choice = ''c'' then
                    (case read_input w2 of
                       (Inl e, w3) \<Rightarrow> (Inl e, w3)
                     | (Inr l2, w3) \<Rightarrow>
                         if lower (strip l2) = ''y''
                         then (Inr (), emit (Say ''[OK] All history cleared'') (delete_all E sessions w3))
                         else (Inr (), w3))
                  else
                    (case py_int choice of
                       None \<Rightarrow> (Inr (), emit (Say ''Invalid selection'') w2)
                     | Some k \<Rightarrow>
                         if index_ok (k - 1) sessions
                         then display_session (sessions ! nat (k - 1)) w2
                         else (Inr (), w2)))))"

subsection \<open>Export, model and file selection\<close>

definition export_history :: "env \<Rightarrow> ChatHistory \<Rightarrow> world \<Rightarrow> world" where
  \<comment> \<open>the export file lies outside the history directory; a failed write is caught\<close>
  "export_history E h w =
     (let w1 = advance w; name = ''export_'' @ session_id h @ ''.txt'' in
      case write_result E (tick w) of
        WriteOk \<Rightarrow> emit (Say (''[OK] Exported to: '' @ name)) (emit (Exported name (messages h)) w1)
      | _ \<Rightarrow> emit (Say ''[ERROR] Export failed'') (emit (ExportFailed name) w1))"

definition MODELS :: "string list" where
  "MODELS = [''gemini-3-pro-preview'', ''gemini-2.5-pro'', ''gemini-2.5-flash'',
             ''gemini-2.5-flash-lite'', ''gemini-2.0-flash'', ''gemini-2.0-flash-lite'']"

definition select_model :: "world \<Rightarrow> (exn + string) \<times> world" where
  "select_model w =
     (case read_input w of
        (Inl e, w1) \<Rightarrow> (Inl e, w1)
      | (Inr l, w1) \<Rightarrow>
          (let choice = strip l in
           if choice = [] then (Inr (MODELS ! 0), w1)
           else (case py_int choice of
                   Some k \<Rightarrow>
                     if index_ok (k - 1) MODELS then (Inr (MODELS ! nat (k - 1)), w1)
                     else (Inr (MODELS ! 0), emit (Say ''Using default model'') w1)
                 | None \<Rightarrow> (Inr (MODELS ! 0), emit (Say ''Using default model'') w1))))"

definition mime_types :: "(string \<times> string) list" where
  "mime_types =
     [(''.jpg'', ''image/jpeg''), (''.jpeg'', ''image/jpeg''),
      (''.png'', ''image/png''), (''.gif'', ''image/gif''), (''.webp'', ''image/webp''),
      (''.mp4'', ''video/mp4''), (''.mpeg'', ''video/mpeg''),
      (''.mov'', ''video/quicktime''), (''.avi'', ''video/x-msvideo''), (''.webm'', ''video/webm''),
      (''.mp3'', ''audio/mp3''), (''.wav'', ''audio/wav''),
      (''.aiff'', ''audio/aiff''), (''.aac'', ''audio/aac''),
      (''.ogg'', ''audio/ogg''), (''.flac'', ''audio/flac'')]"

definition get_mime_type :: "env \<Rightarrow> string \<Rightarrow> string" where
  "get_mime_type E file_path =
     (case map_of mime_types (lower (path_suffix E file_path)) of
        None \<Rightarrow> ''application/octet-stream''
      | Some m \<Rightarrow> m)"

text \<open>
  pathlib is part of the environment: \<open>expanduser\<close> is Path(s).expanduser(), which raises
  when the home directory of a named user is unknown; \<open>path_exists\<close> and \<open>path_is_file\<close>
  are exists() and is_file(), which raise on an operating-system error other than a missing
  file; Inl carries the text of the exception. select_file guards none of them, so the
  exception leaves select_file and reaches the handler of chat_loop.
\<close>

definition select_file :: "env \<Rightarrow> world \<Rightarrow> (exn + (string \<times> string) option) \<times> world" where
  \<comment> \<open>the result is the expanded path and the MIME type\<close>
  "select_file E w =
     (case read_input w of
        (Inl e, w1) \<Rightarrow> (Inl e, w1)
      | (Inr l, w1) \<Rightarrow>
          (let file_path = strip_quotes (strip l) in
           if file_path = [] then (Inr None, w1)
           else
             (case expanduser E file_path of
                Inl e \<Rightarrow> (Inl (Exception e), w1)
              | Inr path \<Rightarrow>
                  (case path_exists E path of
                     Inl e \<Rightarrow> (Inl (Exception e), w1)
                   | Inr False \<Rightarrow>
                       (Inr None, emit (Say (''[ERROR] File not found: '' @ path)) w1)
                   | Inr True \<Rightarrow>
                       (case path_is_file E path of
                          Inl e \<Rightarrow> (Inl (Exception e), w1)
                        | Inr False \<Rightarrow>
                            (Inr None, emit (Say (''[ERROR] Not a file: '' @ path)) w1)
                        | Inr True \<Rightarrow>
                            (let mime_type = get_mime_type E path;
                                 file_type = capitalize (takeWhile (\<lambda>c. c \<noteq> CHR ''/'') mime_type);
                                 accepted = (Inr (Some (path, mime_type)),
                                             emit (Say (''[OK] '' @ file_type @ '': '' @ path_name E path)))
                             in
                             if mime_type = ''application/octet-stream'' then
                               (case read_input
                                       (emit (Say (''[WARNING] Unknown file type: '' @ path_suffix E path)) w1) of
                                  (Inl e, w2) \<Rightarrow> (Inl e, w2)
                                | (Inr l2, w2) \<Rightarrow>
                                    if lower (strip l2) \<noteq> ''y'' then (Inr None, w2)
                                    else (fst accepted, snd accepted w2))
                             else (fst accepted, snd accepted w1)))))))"

definition upload_file :: "env \<Rightarrow> string \<Rightarrow> string \<Rightarrow> world \<Rightarrow> (exn + nat) \<times> world" where
  "upload_file E file_path mime_type w =
     (let w1 = emit (UploadCall file_path mime_type) (advance w) in
      case upload E (tick w) file_path mime_type of
        Uploaded handle \<Rightarrow> (Inr handle, w1)
      | UploadFails e \<Rightarrow> (Inl (Exception e), w1)
      | UploadInterrupted \<Rightarrow> (Inl KeyboardInterrupt, w1))"

subsection \<open>chat_loop\<close>

text \<open>
  The local variables of chat_loop. An uploaded file is known by the handle that the upload
  returned, an object that Python takes as true; None is Python's None.
\<close>

record loop_state =
  history :: ChatHistory
  attached_file :: "nat option"
  attached_file_name :: "string option"
  model :: string

definition send :: "env \<Rightarrow> string \<Rightarrow> loop_state \<Rightarrow> world \<Rightarrow> (exn + bool) \<times> loop_state \<times> world" where
  \<comment> \<open>lines 468 to 493: the input is no command\<close>
  "send E user_input s w =
     (let contents = (case attached_file s of None \<Rightarrow> [] | Some f \<Rightarrow> [FilePart f])
                     @ [TextPart user_input];
          (h1, w1) = add_message E (history s) ''user'' user_input (attached_file s \<noteq> None) w;
          s1 = s\<lparr>history := h1\<rparr>;
          w2 = emit (Invoke (model s) contents) (advance w1)
      in case generate E (tick w1) (model s) contents of
           Reply response_text \<Rightarrow>
             (let (h2, w3) = add_message E h1 ''assistant'' response_text False w2;
                  s2 = s1\<lparr>history := h2\<rparr>
              in if attached_file s2 \<noteq> None
                 then (Inr False, s2\<lparr>attached_file := None, attached_file_name := None\<rparr>,
                       emit (Say ''[attachment cleared]'') w3)
                 else (Inr False, s2, w3))
         | Failure e \<Rightarrow> (Inl (Exception e), s1, w2)
         | Interrupted \<Rightarrow> (Inl KeyboardInterrupt, s1, w2))"

definition body :: "env \<Rightarrow> loop_state \<Rightarrow> world \<Rightarrow> (exn + bool) \<times> loop_state \<times> world" where
  \<comment> \<open>the try block of one turn; Inr True is break, Inr False is the next turn\<close>
  "body E s w =
     (case read_input w of
        (Inl e, w1) \<Rightarrow> (Inl e, s, w1)
      | (Inr l, w1) \<Rightarrow>
          (let user_input = strip l in
           if user_input = [] then (Inr False, s, w1)
           else
             (let cmd = lower user_input in
              if cmd = ''/quit'' then
                (Inr True, s,
                 emit (Say ''Goodbye!'')
                   (emit (Say (''[OK] Chat saved to: '' @ session_file (history s))) w1))
              else if cmd = ''/clear'' then (Inr False, s, w1)
              else if cmd = ''/help'' then (Inr False, s, w1)
              else if cmd = ''/model'' then
                (case select_model w1 of
                   (Inl e, w2) \<Rightarrow> (Inl e, s, w2)
                 | (Inr m, w2) \<Rightarrow>
                     (let (h1, w3) = set_model E (history s) m w2
                      in (Inr False, s\<lparr>model := m, history := h1\<rparr>,
                          emit (Say (''[OK] Now using: '' @ m)) w3)))
              else if cmd = ''/history'' then
                (case view_history E w1 of
                   (Inl e, w2) \<Rightarrow> (Inl e, s, w2)
                 | (Inr u, w2) \<Rightarrow> (Inr False, s, w2))
              else if cmd = ''/export'' then (Inr False, s, export_history E (history s) w1)
              else if cmd = ''/file'' then
                (case select_file E w1 of
                   (Inl e, w2) \<Rightarrow> (Inl e, s, w2)
                 | (Inr None, w2) \<Rightarrow> (Inr False, s, w2)
                 | (Inr (Some (file_path, mime_type)), w2) \<Rightarrow>
                     (case upload_file E file_path mime_type w2 of
                        (Inl e, w3) \<Rightarrow> (Inl e, s, w3)
                      | (Inr handle, w3) \<Rightarrow>
                          (Inr False,
                           s\<lparr>attached_file := Some handle,
                             attached_file_name := Some (path_name E file_path)\<rparr>,
                           w3)))
              else send E user_input s w1)))"

definition iteration :: "env \<Rightarrow> loop_state \<Rightarrow> world \<Rightarrow> bool \<times> loop_state \<times> world" where
  \<comment> \<open>one turn of while True with its two handlers; True: the loop has ended\<close>
  "iteration E s w =
     (case body E s w of
        (Inr stop, s1, w1) \<Rightarrow> (stop, s1, w1)
      | (Inl KeyboardInterrupt, s1, w1) \<Rightarrow>
          (False, s1, emit (Say ''Use /quit to exit (saves chat history)'') w1)
      | (Inl (Exception e), s1, w1) \<Rightarrow>
          (let (h1, w2) = add_message E (history s1) ''system'' (''Error: '' @ e) False
                            (emit (Say (''[ERROR] '' @ e)) w1)
           in (False, s1\<lparr>history := h1\<rparr>, w2)))"

fun chat_iter :: "nat \<Rightarrow> env \<Rightarrow> loop_state \<Rightarrow> world \<Rightarrow> bool \<times> loop_state \<times> world" where
  \<comment> \<open>at most n turns of the loop\<close>
  "chat_iter 0 E s w = (False, s, w)"
| "chat_iter (Suc n) E s w =
     (case iteration E s w of
        (True, s1, w1) \<Rightarrow> (True, s1, w1)
      | (False, s1, w1) \<Rightarrow> chat_iter n E s1 w1)"

definition chat_start :: "env \<Rightarrow> string \<Rightarrow> world \<Rightarrow> loop_state \<times> world" where
  \<comment> \<open>lines 414 to 418\<close>
  "chat_start E m w =
     (let (h, w1) = create E m w
      in (\<lparr>history = h, attached_file = None, attached_file_name = None, model = m\<rparr>, w1))"

definition chat_loop :: "nat \<Rightarrow> env \<Rightarrow> string \<Rightarrow> world \<Rightarrow> bool \<times> loop_state \<times> world" where
  "chat_loop n E m w = (let (s, w1) = chat_start E m w in chat_iter n E s w1)"

section \<open>Notions used to state the properties\<close>

text \<open>Sequences of operations on one ChatHistory object.\<close>

datatype store_op = Append string string bool | SetModel string

fun apply_op :: "env \<Rightarrow> store_op \<Rightarrow> ChatHistory \<times> world \<Rightarrow> ChatHistory \<times> world" where
  "apply_op E (Append r c a) (h, w) = add_message E h r c a w"
| "apply_op E (SetModel m) (h, w) = set_model E h m w"

fun apply_ops :: "env \<Rightarrow> store_op list \<Rightarrow> ChatHistory \<times> world \<Rightarrow> ChatHistory \<times> world" where
  "apply_ops E [] hw = hw"
| "apply_ops E (x # xs) hw = apply_ops E xs (apply_op E x hw)"

definition appends :: "(string \<times> string \<times> bool) list \<Rightarrow> store_op list" where
  "appends specs = map (\<lambda>(r, c, a). Append r c a) specs"

definition count_ok :: "ChatHistory \<Rightarrow> bool" where
  "count_ok h = (map_of (metadata h) ''message_count'' = Some (JInt (int (length (messages h)))))"

definition consistent_record :: "json \<Rightarrow> bool" where
  \<comment> \<open>metadata.message_count of a record is the length of its messages\<close>
  "consistent_record d =
     (case d of
        JObj r \<Rightarrow>
          (case (map_of r ''metadata'', map_of r ''messages'') of
             (Some (JObj meta), Some (JArr ms)) \<Rightarrow>
               map_of meta ''message_count'' = Some (JInt (int (length ms)))
           | _ \<Rightarrow> False)
      | _ \<Rightarrow> False)"

definition new_events :: "world \<Rightarrow> world \<Rightarrow> event list" where
  \<comment> \<open>what the log of w' has beyond the log of w\<close>
  "new_events w w' = drop (length (trace w)) (trace w')"

definition writes_consistent :: "event list \<Rightarrow> bool" where
  "writes_consistent evs = (\<forall>f d. Wrote f d \<in> set evs \<longrightarrow> consistent_record d)"

definition grows :: "world \<Rightarrow> world \<Rightarrow> bool" where
  "grows w w' = (\<exists>evs. trace w' = trace w @ evs \<and> writes_consistent evs)"

definition msg_field :: "json \<Rightarrow> string \<Rightarrow> json" where
  "msg_field msg k = (case msg of JObj d \<Rightarrow> dict_get d k JNull | _ \<Rightarrow> JNull)"

definition msg_triple :: "json \<Rightarrow> json \<times> json \<times> json" where
  "msg_triple msg = (msg_field msg ''role'', msg_field msg ''content'', msg_field msg ''has_attachment'')"

definition stored :: "ChatHistory \<Rightarrow> world \<Rightarrow> bool" where
  "stored h w = (map_of (hist_dir w) (session_file h) = Some (Parsed (record_of h)))"

text \<open>A concrete environment and world, on which the theorems are exercised.\<close>

definition example_time :: datetime where
  "example_time = \<lparr>year = 2025, month = 3, day = 7, hour = 9, minute = 5, second = 30,
                    microsecond = 0\<rparr>"

definition example_env :: env where
  "example_env =
     \<lparr>now = (\<lambda>t. example_time), write_result = (\<lambda>t. WriteOk), unlink_result = (\<lambda>t. True),
      generate = (\<lambda>t m c. Reply ''hi''), upload = (\<lambda>t p m. Uploaded 7),
      expanduser = (\<lambda>p. Inr p), path_exists = (\<lambda>p. Inr False), path_is_file = (\<lambda>p. Inr False),
      path_name = (\<lambda>p. p), path_suffix = (\<lambda>p. [])\<rparr>"

definition example_world :: "input_event list \<Rightarrow> world" where
  "example_world ins = \<lparr>hist_dir = [], inputs = ins, trace = [], tick = 0\<rparr>"

text \<open>Input lines that are sent to the model, and the messages a turn may record.\<close>

definition commands :: "string list" where
  "commands = [''/quit'', ''/clear'', ''/help'', ''/model'', ''/history'', ''/export'', ''/file'']"

definition is_plain :: "string \<Rightarrow> bool" where
  \<comment> \<open>the trimmed line is not empty and, case-folded, no command\<close>
  "is_plain l = (strip l \<noteq> [] \<and> lower (strip l) \<notin> set commands)"

definition well_flagged :: "json \<Rightarrow> bool" where
  "well_flagged msg =
     ((msg_field msg ''role'' = JStr ''user'' \<or> msg_field msg ''role'' = JStr ''assistant''
       \<or> msg_field msg ''role'' = JStr ''system'')
      \<and> (msg_field msg ''role'' = JStr ''user'' \<or> msg_field msg ''has_attachment'' = JBool False))"

definition failing_env :: env where
  \<comment> \<open>as example_env, but every call of the model raises\<close>
  "failing_env = example_env\<lparr>generate := (\<lambda>t m c. Failure ''quota exceeded'')\<rparr>"

definition staged_state :: loop_state where
  \<comment> \<open>a session with no message yet and an uploaded file staged\<close>
  "staged_state =
     \<lparr>history = fst (create example_env ''gemini-2.5-pro'' (example_world [])),
      attached_file = Some 7, attached_file_name = Some ''photo.png'',
      model = ''gemini-2.5-pro''\<rparr>"

definition user_msg :: "env \<Rightarrow> loop_state \<Rightarrow> world \<Rightarrow> string \<Rightarrow> json" where
  \<comment> \<open>the message that line 473 appends for the input line l\<close>
  "user_msg E s w l =
     new_message (isoformat (now E (tick w))) ''user'' (strip l) (attached_file s \<noteq> None)"

definition payload :: "loop_state \<Rightarrow> string \<Rightarrow> part list" where
  \<comment> \<open>the contents list of lines 468 to 471\<close>
  "payload s l = (case attached_file s of None \<Rightarrow> [] | Some f \<Rightarrow> [FilePart f]) @ [TextPart (strip l)]"

definition persist_events :: "env \<Rightarrow> nat \<Rightarrow> ChatHistory \<Rightarrow> event list" where
  \<comment> \<open>what _save logs when the write is decided at tick t\<close>
  "persist_events E t h =
     (case write_result E t of
        WriteOk \<Rightarrow> [Wrote (session_file h) (record_of h)]
      | _ \<Rightarrow> [WriteFailed (session_file h) (record_of h), Say ''Warning: Could not save history''])"

definition reply_msgs :: "gen_outcome \<Rightarrow> (json \<times> json \<times> json) list" where
  \<comment> \<open>role, content and has_attachment of what is recorded after the call of the model\<close>
  "reply_msgs out =
     (case out of
        Reply t \<Rightarrow> [(JStr ''assistant'', JStr t, JBool False)]
      | Failure e \<Rightarrow> [(JStr ''system'', JStr (''Error: '' @ e), JBool False)]
      | Interrupted \<Rightarrow> [])"

definition all_flagged :: "ChatHistory \<Rightarrow> bool" where
  "all_flagged h = list_all well_flagged (messages h)"

text \<open>Session files and the order of their names.\<close>

definition session_name :: "datetime \<Rightarrow> string" where
  \<comment> \<open>the file name that __init__ derives from the clock\<close>
  "session_name d = ''chat_'' @ strftime_id d @ ''.json''"

definition stamp :: "datetime \<Rightarrow> nat list" where
  "stamp d = [year d, month d, day d, hour d, minute d, second d]"

definition earlier :: "datetime \<Rightarrow> datetime \<Rightarrow> bool" where
  \<comment> \<open>d1 is at least one second before d2\<close>
  "earlier d1 d2 = (stamp d1 < stamp d2)"

definition valid_time :: "datetime \<Rightarrow> bool" where
  "valid_time d = (1000 \<le> year d \<and> year d \<le> 9999 \<and> 1 \<le> month d \<and> month d \<le> 12
                   \<and> 1 \<le> day d \<and> day d \<le> 31 \<and> hour d < 24 \<and> minute d < 60 \<and> second d < 60)"

definition unreadable :: "world \<Rightarrow> string \<Rightarrow> bool" where
  \<comment> \<open>the file is missing, cannot be opened or read, or is not JSON\<close>
  "unreadable w p = (case map_of (hist_dir w) p of Some (Parsed j) \<Rightarrow> False | _ \<Rightarrow> True)"

definition has_created :: "json \<Rightarrow> bool" where
  \<comment> \<open>an object whose metadata is an object with a string under created\<close>
  "has_created j =
     (case j of
        JObj d \<Rightarrow>
          (case map_of d ''metadata'' of
             Some (JObj meta) \<Rightarrow> (case map_of meta ''created'' of Some (JStr c) \<Rightarrow> True | _ \<Rightarrow> False)
           | _ \<Rightarrow> False)
      | _ \<Rightarrow> False)"

definition listable :: "world \<Rightarrow> string \<Rightarrow> bool" where
  "listable w p =
     (case map_of (hist_dir w) p of
        Some (Parsed j) \<Rightarrow> has_created j
      | _ \<Rightarrow> True)"

text \<open>Further concrete states and worlds.\<close>

definition fresh_state :: loop_state where
  \<comment> \<open>the state in which chat_loop enters its first turn\<close>
  "fresh_state = fst (chat_start example_env ''gemini-2.5-pro'' (example_world []))"

definition older_time :: datetime where
  "older_time = example_time\<lparr>year := 2024, month := 11\<rparr>"

definition example_dir :: world where
  \<comment> \<open>a history directory with a damaged record, a foreign file and a record of the program\<close>
  "example_dir =
     \<lparr>hist_dir = [(session_name older_time, Malformed), (''notes.txt'', Unreadable),
                  (session_name example_time, Parsed (record_of (history fresh_state)))],
      inputs = [], trace = [], tick = 0\<rparr>"

text \<open>The file selector: what lines 360 to 368 make of a typed path.\<close>

datatype path_verdict = Raises string | Missing string | NotRegular string | Regular string

definition path_check :: "env \<Rightarrow> string \<Rightarrow> path_verdict" where
  "path_check E file_path =
     (case expanduser E file_path of
        Inl e \<Rightarrow> Raises e
      | Inr path \<Rightarrow>
          (case path_exists E path of
             Inl e \<Rightarrow> Raises e
           | Inr False \<Rightarrow> Missing path
           | Inr True \<Rightarrow>
               (case path_is_file E path of
                  Inl e \<Rightarrow> Raises e
                | Inr False \<Rightarrow> NotRegular path
                | Inr True \<Rightarrow> Regular path)))"

definition homeless_env :: env where
  \<comment> \<open>as example_env, but the home directory of nosuchuser cannot be determined\<close>
  "homeless_env =
     example_env\<lparr>expanduser := (\<lambda>p. if p = ''~nosuchuser/x.png''
                                      then Inl ''Could not determine home directory.''
                                      else Inr p)\<rparr>"

text \<open>The listing of the history browser: what it shows for a list of files.\<close>

definition meta_of :: "json \<Rightarrow> (string \<times> json) list" where
  "meta_of j =
     (case j of
        JObj d \<Rightarrow> (case map_of d ''metadata'' of Some (JObj m) \<Rightarrow> m | _ \<Rightarrow> [])
      | _ \<Rightarrow> [])"

definition record_summary :: "nat \<Rightarrow> json \<Rightarrow> event" where
  \<comment> \<open>the numbered line of a record: creation time to the minute, model, message count\<close>
  "record_summary k j =
     ListLine k
       (case map_of (meta_of j) ''created'' of
          Some (JStr c) \<Rightarrow> JStr (replace_T (take 16 c))
        | _ \<Rightarrow> JStr ''Unknown'')
       (dict_get (meta_of j) ''model'' (JStr ''Unknown''))
       (dict_get (meta_of j) ''message_count'' (JInt 0))"

definition line_events :: "world \<Rightarrow> nat \<Rightarrow> string \<Rightarrow> event list" where
  "line_events w k p =
     (case map_of (hist_dir w) p of
        Some (Parsed j) \<Rightarrow> [record_summary k j]
      | _ \<Rightarrow> [LoadError p])"

fun listing_events :: "world \<Rightarrow> nat \<Rightarrow> string list \<Rightarrow> event list" where
  "listing_events w k [] = []"
| "listing_events w k (p # ps) = line_events w k p @ listing_events w (Suc k) ps"

definition is_list_line :: "event \<Rightarrow> bool" where
  "is_list_line e = (case e of ListLine k c m n \<Rightarrow> True | _ \<Rightarrow> False)"

definition created_ok :: "ChatHistory \<Rightarrow> bool" where
  "created_ok h = (case map_of (metadata h) ''created'' of Some (JStr c) \<Rightarrow> True | _ \<Rightarrow> False)"

definition day_time :: "nat \<Rightarrow> datetime" where
  "day_time n = example_time\<lparr>day := n\<rparr>"

definition crowded_dir :: world where
  \<comment> \<open>twelve session files, of the days 1 to 12; the newest is damaged, the others hold a
     record; the user leaves the browser with 0\<close>
  "crowded_dir =
     \<lparr>hist_dir = map (\<lambda>n. (session_name (day_time n),
                             if n = 12 then Malformed else Parsed (record_of (history fresh_state))))
                     [1 ..< 13],
      inputs = [Line ''0''], trace = [], tick = 0\<rparr>"

section \<open>The session store\<close>

lemma count_ok_record: "count_ok h \<Longrightarrow> consistent_record (record_of h)"
  by (simp add: count_ok_def consistent_record_def record_of_def)

lemma save_trace:
  "trace (save E h w) = trace w @
     (case write_result E (tick w) of
        WriteOk \<Rightarrow> [Wrote (session_file h) (record_of h)]
      | _ \<Rightarrow> [WriteFailed (session_file h) (record_of h), Say ''Warning: Could not save history''])"
  by (simp add: save_def emit_def advance_def Let_def split: write_outcome.splits)

lemma count_ok_init: "count_ok (fst (init E w))"
  by (simp add: init_def count_ok_def Let_def)

lemma trace_init: "trace (snd (init E w)) = trace w"
  by (simp add: init_def advance_def Let_def)

lemma count_ok_add: "count_ok (fst (add_message E h r c a w))"
  by (simp add: add_message_def count_ok_def Let_def update_conv')

lemma count_ok_set_model: "count_ok h \<Longrightarrow> count_ok (fst (set_model E h m w))"
  by (simp add: set_model_def count_ok_def Let_def update_conv')

lemma grows_refl: "grows w w"
  by (simp add: grows_def writes_consistent_def)

lemma grows_trans: "grows w w1 \<Longrightarrow> grows w1 w2 \<Longrightarrow> grows w w2"
  by (auto simp: grows_def writes_consistent_def)

lemma grows_save: "count_ok h \<Longrightarrow> grows w (save E h w)"
  by (auto simp: grows_def save_trace writes_consistent_def count_ok_record split: write_outcome.splits)

lemma grows_add: "grows w (snd (add_message E h r c a w))"
proof -
  let ?h1 = "fst (add_message E h r c a w)"
  have "snd (add_message E h r c a w) = save E ?h1 (advance w)"
    by (simp add: add_message_def Let_def)
  moreover have "grows (advance w) (save E ?h1 (advance w))"
    by (rule grows_save) (rule count_ok_add)
  moreover have "trace (advance w) = trace w" by (simp add: advance_def)
  ultimately show ?thesis by (simp add: grows_def)
qed

lemma grows_set_model: "count_ok h \<Longrightarrow> grows w (snd (set_model E h m w))"
proof -
  assume "count_ok h"
  then have "count_ok (fst (set_model E h m w))" by (rule count_ok_set_model)
  then have "grows w (save E (fst (set_model E h m w)) w)" by (rule grows_save)
  then show ?thesis by (simp add: set_model_def Let_def)
qed

lemma apply_op_inv:
  "count_ok (fst hw) \<Longrightarrow> count_ok (fst (apply_op E x hw)) \<and> grows (snd hw) (snd (apply_op E x hw))"
  by (cases x; cases hw) (simp_all add: count_ok_add grows_add count_ok_set_model grows_set_model)

lemma apply_ops_inv:
  "count_ok (fst hw) \<Longrightarrow> count_ok (fst (apply_ops E xs hw)) \<and> grows (snd hw) (snd (apply_ops E xs hw))"
proof (induction xs arbitrary: hw)
  case Nil
  then show ?case by (simp add: grows_refl)
next
  case (Cons x xs)
  from apply_op_inv [OF Cons.prems, of E x]
  have a: "count_ok (fst (apply_op E x hw))" and b: "grows (snd hw) (snd (apply_op E x hw))" by simp_all
  from Cons.IH [OF a] b show ?case by (auto intro: grows_trans)
qed

lemma apply_ops_snoc: "apply_ops E (xs @ [x]) hw = apply_op E x (apply_ops E xs hw)"
  by (induction xs arbitrary: hw) simp_all

lemma save_last:
  "last (trace (save E h w)) = Wrote f d \<Longrightarrow>
   f = session_file h \<and> d = record_of h \<and> map_of (hist_dir (save E h w)) f = Some (Parsed d)"
  by (auto simp: save_def emit_def advance_def Let_def update_conv' split: write_outcome.splits)

lemma apply_op_last:
  "apply_op E x hw = (h, w') \<Longrightarrow> last (trace w') = Wrote f d \<Longrightarrow>
   f = session_file h \<and> d = record_of h \<and> map_of (hist_dir w') f = Some (Parsed d)"
proof (cases x; cases hw)
  fix r c a h0 w0
  assume x: "x = Append r c a" and hw: "hw = (h0, w0)"
    and eq: "apply_op E x hw = (h, w')" and l: "last (trace w') = Wrote f d"
  from eq x hw have w': "w' = save E h (advance w0)"
    by (auto simp: add_message_def Let_def)
  from l w' have "last (trace (save E h (advance w0))) = Wrote f d" by simp
  from save_last [OF this] w' show ?thesis by blast
next
  fix m h0 w0
  assume x: "x = SetModel m" and hw: "hw = (h0, w0)"
    and eq: "apply_op E x hw = (h, w')" and l: "last (trace w') = Wrote f d"
  from eq x hw have w': "w' = save E h w0"
    by (auto simp: set_model_def Let_def)
  from l w' have "last (trace (save E h w0)) = Wrote f d" by simp
  from save_last [OF this] w' show ?thesis by blast
qed

lemma create_eq:
  "create E m w =
     (\<lparr>messages = [], session_id = strftime_id (now E (tick w)),
       session_file = ''chat_'' @ strftime_id (now E (tick w)) @ ''.json'',
       metadata = [(''created'', JStr (isoformat (now E (Suc (tick w))))), (''model'', JStr m),
                   (''message_count'', JInt 0)]\<rparr>,
      save E \<lparr>messages = [], session_id = strftime_id (now E (tick w)),
       session_file = ''chat_'' @ strftime_id (now E (tick w)) @ ''.json'',
       metadata = [(''created'', JStr (isoformat (now E (Suc (tick w))))), (''model'', JStr m),
                   (''message_count'', JInt 0)]\<rparr> (advance (advance w)))"
  by (simp add: create_def init_def set_model_def Let_def advance_def)

lemma stored_save: "write_result E (tick w) = WriteOk \<Longrightarrow> stored h (save E h w)"
  by (simp add: stored_def save_def emit_def advance_def Let_def update_conv')

lemma add_message_eq:
  "add_message E h r c a w =
     (h\<lparr>messages := messages h @ [new_message (isoformat (now E (tick w))) r c a],
        metadata := AList.update ''message_count'' (JInt (int (Suc (length (messages h))))) (metadata h)\<rparr>,
      save E (h\<lparr>messages := messages h @ [new_message (isoformat (now E (tick w))) r c a],
        metadata := AList.update ''message_count'' (JInt (int (Suc (length (messages h))))) (metadata h)\<rparr>)
        (advance w))"
  by (simp add: add_message_def Let_def)

lemma msg_triple_new: "msg_triple (new_message ts r c a) = (JStr r, JStr c, JBool a)"
  by (simp add: msg_triple_def msg_field_def new_message_def dict_get_def)

lemma appends_inv:
  assumes ok: "\<forall>t. write_result E t = WriteOk"
  shows "stored h w \<Longrightarrow> apply_ops E (appends specs) (h, w) = (h', w') \<Longrightarrow>
         stored h' w' \<and> map msg_triple (messages h')
           = map msg_triple (messages h) @ map (\<lambda>(r, c, a). (JStr r, JStr c, JBool a)) specs"
proof (induction specs arbitrary: h w)
  case Nil
  then show ?case by (simp add: appends_def)
next
  case (Cons x xs)
  obtain r c a where x: "x = (r, c, a)" by (cases x)
  obtain h1 w1 where s1: "add_message E h r c a w = (h1, w1)" by (cases "add_message E h r c a w")
  from s1 have st: "stored h1 w1"
    using ok by (auto simp: add_message_eq intro: stored_save)
  from s1 have ms: "messages h1 = messages h @ [new_message (isoformat (now E (tick w))) r c a]"
    by (auto simp: add_message_eq)
  from Cons.prems(2) x s1 have "apply_ops E (appends xs) (h1, w1) = (h', w')"
    by (simp add: appends_def)
  from Cons.IH [OF st this] ms x show ?case by (simp add: msg_triple_new)
qed

text \<open>
  C3. Take any sequence of add_message and set_model calls on a fresh ChatHistory. Every
  successful write that the sequence logs carries a record whose metadata.message_count
  is the length of its messages list; and when the last call's write succeeded, the file
  of the session holds exactly that record, which is the record of the object in memory.
\<close>

theorem persisted_count_is_length:
  assumes run: "apply_ops E ops (init E w) = (h, w')"
  shows "(\<forall>f d. Wrote f d \<in> set (new_events w w') \<longrightarrow> consistent_record d) \<and>
         (\<forall>f d. ops \<noteq> [] \<and> last (trace w') = Wrote f d \<longrightarrow>
            f = session_file h \<and> d = record_of h \<and> consistent_record d
            \<and> map_of (hist_dir w') f = Some (Parsed d))"
proof (intro conjI allI impI)
  fix f d
  assume b: "Wrote f d \<in> set (new_events w w')"
  from apply_ops_inv [OF count_ok_init, of E ops E w] run
  have "grows (snd (init E w)) w'" by simp
  then obtain evs where "trace w' = trace w @ evs" "writes_consistent evs"
    by (auto simp: grows_def trace_init)
  with b show "consistent_record d" by (simp add: new_events_def writes_consistent_def)
next
  fix f d
  assume b: "ops \<noteq> [] \<and> last (trace w') = Wrote f d"
  then obtain xs x where ops: "ops = xs @ [x]" by (metis rev_exhaust)
  from run ops have step: "apply_op E x (apply_ops E xs (init E w)) = (h, w')"
    by (simp add: apply_ops_snoc)
  from b have "last (trace w') = Wrote f d" by simp
  from apply_op_last [OF step this]
  have c: "f = session_file h \<and> d = record_of h \<and> map_of (hist_dir w') f = Some (Parsed d)" .
  from apply_ops_inv [OF count_ok_init, of E ops E w] run have "count_ok h" by simp
  then have "consistent_record (record_of h)" by (rule count_ok_record)
  with c show "f = session_file h" "d = record_of h" "consistent_record d"
    "map_of (hist_dir w') f = Some (Parsed d)" by blast+
qed

theorem persisted_count_is_length_witness:
  "(let w = example_world [];
        ops = [Append ''user'' ''hello'' False, SetModel ''gemini-2.5-pro'',
               Append ''assistant'' ''hi'' False];
        hw = apply_ops example_env ops (init example_env w);
        f = session_file (fst hw); d = record_of (fst hw)
    in apply_ops example_env ops (init example_env w) = hw
       \<and> Wrote f d \<in> set (new_events w (snd hw))
       \<and> ops \<noteq> [] \<and> last (trace (snd hw)) = Wrote f d
       \<and> consistent_record d
       \<and> map_of (hist_dir (snd hw)) f = Some (Parsed d)
       \<and> length (messages (fst hw)) = 2)"
proof -
  let ?w = "example_world []"
  let ?ops = "[Append ''user'' ''hello'' False, SetModel ''gemini-2.5-pro'',
               Append ''assistant'' ''hi'' False]"
  let ?hw = "apply_ops example_env ?ops (init example_env ?w)"
  have run: "apply_ops example_env ?ops (init example_env ?w) = (fst ?hw, snd ?hw)" by simp
  have ok: "\<And>t. write_result example_env t = WriteOk" by (simp add: example_env_def)
  have l: "last (trace (snd ?hw)) = Wrote (session_file (fst ?hw)) (record_of (fst ?hw))"
    by (simp add: init_def add_message_eq set_model_def Let_def save_trace ok)
  have m: "Wrote (session_file (fst ?hw)) (record_of (fst ?hw)) \<in> set (new_events ?w (snd ?hw))"
    by (simp add: init_def add_message_eq set_model_def Let_def save_trace ok new_events_def
        advance_def example_world_def)
  have n: "length (messages (fst ?hw)) = 2"
    by (simp add: init_def add_message_eq set_model_def Let_def)
  have ne: "?ops \<noteq> []" by simp
  from persisted_count_is_length [OF run] l m ne
  have "consistent_record (record_of (fst ?hw))"
    and "map_of (hist_dir (snd ?hw)) (session_file (fst ?hw)) = Some (Parsed (record_of (fst ?hw)))"
    by blast+
  with l m n show ?thesis
    unfolding Let_def by (intro conjI) (simp_all only: prod.collapse list.distinct simp_thms)
qed


text \<open>
  C4. After create and N appends whose writes all succeed, load_session on the file of
  the session returns a record whose messages are the N messages of the object in memory,
  in the order of the appends, each with the role, content and has_attachment it was
  appended with.
\<close>

theorem load_after_appends:
  assumes ok: "\<forall>t. write_result E t = WriteOk"
      and run: "apply_ops E (appends specs) (create E m w) = (h, w')"
  shows "\<exists>meta ms. load_session (session_file h) w'
            = (Some (JObj [(''metadata'', JObj meta), (''messages'', JArr ms)]), w')
          \<and> ms = messages h
          \<and> map msg_triple ms = map (\<lambda>(r, c, a). (JStr r, JStr c, JBool a)) specs"
proof -
  obtain h0 w0 where c: "create E m w = (h0, w0)" by (cases "create E m w")
  from c have st0: "stored h0 w0" and m0: "messages h0 = []"
    using ok by (auto simp: create_eq intro: stored_save)
  from appends_inv [OF ok st0] run c m0
  have "stored h w'"
    and "map msg_triple (messages h) = map (\<lambda>(r, c, a). (JStr r, JStr c, JBool a)) specs"
    by auto
  then show ?thesis
    by (simp add: stored_def load_session_def record_of_def)
qed

theorem load_after_appends_witness:
  "(let specs = [(''user'', ''hello'', True), (''assistant'', ''hi'', False)];
        hw = apply_ops example_env (appends specs) (create example_env ''gemini-2.5-pro'' (example_world []))
    in (\<forall>t. write_result example_env t = WriteOk)
       \<and> (\<exists>meta ms. load_session (session_file (fst hw)) (snd hw)
             = (Some (JObj [(''metadata'', JObj meta), (''messages'', JArr ms)]), snd hw)
           \<and> map msg_triple ms = [(JStr ''user'', JStr ''hello'', JBool True),
                                   (JStr ''assistant'', JStr ''hi'', JBool False)]))"
proof -
  let ?specs = "[(''user'', ''hello'', True), (''assistant'', ''hi'', False)]"
  let ?hw = "apply_ops example_env (appends ?specs) (create example_env ''gemini-2.5-pro'' (example_world []))"
  have ok: "\<forall>t. write_result example_env t = WriteOk" by (simp add: example_env_def)
  have run: "apply_ops example_env (appends ?specs) (create example_env ''gemini-2.5-pro'' (example_world []))
             = (fst ?hw, snd ?hw)" by simp
  have sp: "map (\<lambda>(r, c, a). (JStr r, JStr c, JBool a)) ?specs
            = [(JStr ''user'', JStr ''hello'', JBool True), (JStr ''assistant'', JStr ''hi'', JBool False)]"
    by simp
  from load_after_appends [OF ok run]
  obtain meta ms where
    "load_session (session_file (fst ?hw)) (snd ?hw)
       = (Some (JObj [(''metadata'', JObj meta), (''messages'', JArr ms)]), snd ?hw)"
    "map msg_triple ms = map (\<lambda>(r, c, a). (JStr r, JStr c, JBool a)) ?specs"
    by blast
  with sp have "\<exists>meta ms. load_session (session_file (fst ?hw)) (snd ?hw)
             = (Some (JObj [(''metadata'', JObj meta), (''messages'', JArr ms)]), snd ?hw)
           \<and> map msg_triple ms = [(JStr ''user'', JStr ''hello'', JBool True),
                                   (JStr ''assistant'', JStr ''hi'', JBool False)]"
    by (intro exI [of _ meta] exI [of _ ms]) (simp only: simp_thms)
  with ok show ?thesis
    unfolding Let_def by (intro conjI)
qed


text \<open>
  C6. Creating the session, as chat_loop does it (ChatHistory() followed by
  set_model(model)), allocates the identifier from the clock and an empty message list,
  reads no input, and attempts one write, of the initial record: when that write
  succeeds, the history directory holds the record, with no messages and message_count
  0, before the first turn of the loop starts.
\<close>

theorem create_persists_initial_record:
  assumes "create E m w = (h, w')"
  shows "messages h = [] \<and> session_id h = strftime_id (now E (tick w))
         \<and> session_file h = ''chat_'' @ session_id h @ ''.json''
         \<and> inputs w' = inputs w
         \<and> new_events w w' = persist_events E (tick w + 2) h
         \<and> (write_result E (tick w + 2) = WriteOk \<longrightarrow>
              new_events w w' = [Wrote (session_file h) (record_of h)]
              \<and> map_of (hist_dir w') (session_file h) = Some (Parsed (record_of h))
              \<and> record_of h = JObj [(''metadata'',
                                      JObj [(''created'', JStr (isoformat (now E (tick w + 1)))),
                                            (''model'', JStr m), (''message_count'', JInt 0)]),
                                    (''messages'', JArr [])])
         \<and> chat_loop n E m w = chat_iter n E \<lparr>history = h, attached_file = None,
                                   attached_file_name = None, model = m\<rparr> w'"
  using assms
  by (auto simp: create_eq save_def emit_def advance_def Let_def new_events_def record_of_def
        persist_events_def update_conv' chat_loop_def chat_start_def split: write_outcome.splits)

theorem create_persists_initial_record_witness:
  "(let w = example_world [Line ''hello''];
        hw = create example_env ''gemini-2.5-pro'' w
    in create example_env ''gemini-2.5-pro'' w = hw
       \<and> write_result example_env (tick w + 2) = WriteOk
       \<and> messages (fst hw) = []
       \<and> inputs (snd hw) = [Line ''hello'']
       \<and> map_of (hist_dir (snd hw)) (session_file (fst hw)) = Some (Parsed (record_of (fst hw)))
       \<and> new_events w (snd hw) = [Wrote (session_file (fst hw)) (record_of (fst hw))])"
proof -
  let ?w = "example_world [Line ''hello'']"
  let ?hw = "create example_env ''gemini-2.5-pro'' ?w"
  have c: "create example_env ''gemini-2.5-pro'' ?w = (fst ?hw, snd ?hw)" by simp
  have ok: "write_result example_env (tick ?w + 2) = WriteOk" by (simp add: example_env_def)
  have i: "inputs ?w = [Line ''hello'']" by (simp add: example_world_def)
  from create_persists_initial_record [OF c, of 0] ok
  have "messages (fst ?hw) = []" and "inputs (snd ?hw) = inputs ?w"
    and "map_of (hist_dir (snd ?hw)) (session_file (fst ?hw)) = Some (Parsed (record_of (fst ?hw)))"
    and "new_events ?w (snd ?hw) = [Wrote (session_file (fst ?hw)) (record_of (fst ?hw))]"
    by blast+
  with ok i show ?thesis
    unfolding Let_def by (intro conjI) (simp_all only: prod.collapse simp_thms)
qed

section \<open>One turn of the loop on a line that is no command\<close>

lemma tick_save: "tick (save E h w) = Suc (tick w)"
  by (simp add: save_def emit_def advance_def Let_def split: write_outcome.splits)

lemma save_events: "trace (save E h w) = trace w @ persist_events E (tick w) h"
  by (simp add: save_def emit_def advance_def Let_def persist_events_def split: write_outcome.splits)

lemma body_plain:
  "inputs w = Line l # rest \<Longrightarrow> is_plain l \<Longrightarrow> body E s w = send E (strip l) s (w\<lparr>inputs := rest\<rparr>)"
  by (simp add: body_def read_input_def is_plain_def commands_def Let_def)

lemma new_events_append: "trace w' = trace w @ evs \<Longrightarrow> new_events w w' = evs"
  by (simp add: new_events_def)

lemma plain_turn_messages:
  assumes "inputs w = Line l # rest" and "is_plain l" and "iteration E s w = (stop, s', w')"
  shows "\<exists>tail. messages (history s') = messages (history s) @ user_msg E s w l # tail
           \<and> map msg_triple tail = reply_msgs (generate E (tick w + 2) (model s) (payload s l))"
  using assms
  by (auto simp: iteration_def body_plain send_def add_message_eq Let_def tick_save advance_def emit_def
      user_msg_def payload_def reply_msgs_def msg_triple_new eval_nat_numeral
      split: gen_outcome.splits option.splits)

lemma plain_turn_attachment:
  assumes "inputs w = Line l # rest" and "is_plain l" and "iteration E s w = (stop, s', w')"
  shows "\<not> stop \<and> (case generate E (tick w + 2) (model s) (payload s l) of
           Reply t \<Rightarrow> attached_file s' = None
              \<and> attached_file_name s' = (if attached_file s = None then attached_file_name s else None)
         | _ \<Rightarrow> attached_file s' = attached_file s \<and> attached_file_name s' = attached_file_name s)"
  using assms
  by (auto simp: iteration_def body_plain send_def add_message_eq Let_def tick_save advance_def emit_def
      payload_def eval_nat_numeral
      split: gen_outcome.splits option.splits)

lemma plain_turn_trace:
  assumes "inputs w = Line l # rest" and "is_plain l" and "iteration E s w = (stop, s', w')"
  shows "\<exists>h1 post. messages h1 = messages (history s) @ [user_msg E s w l]
           \<and> session_file h1 = session_file (history s)
           \<and> new_events w w' = persist_events E (tick w + 1) h1 @ Invoke (model s) (payload s l) # post"
proof -
  let ?h1 = "fst (add_message E (history s) ''user'' (strip l) (attached_file s \<noteq> None) (w\<lparr>inputs := rest\<rparr>))"
  have a: "messages ?h1 = messages (history s) @ [user_msg E s w l]"
    by (simp add: add_message_eq user_msg_def)
  have b: "session_file ?h1 = session_file (history s)"
    by (simp add: add_message_eq)
  have "\<exists>post. trace w' = trace w @ persist_events E (tick w + 1) ?h1 @ Invoke (model s) (payload s l) # post"
    using assms
    by (auto simp: iteration_def body_plain send_def add_message_eq Let_def tick_save advance_def emit_def
      payload_def save_events eval_nat_numeral
      split: gen_outcome.splits option.splits)
  then obtain post where "trace w' = trace w @ persist_events E (tick w + 1) ?h1 @ Invoke (model s) (payload s l) # post" ..
  then have "new_events w w' = persist_events E (tick w + 1) ?h1 @ Invoke (model s) (payload s l) # post"
    by (rule new_events_append)
  with a b show ?thesis by blast
qed

lemma well_flagged_new:
  "well_flagged (new_message ts r c a) = ((r = ''user'' \<or> r = ''assistant'' \<or> r = ''system'') \<and> (r = ''user'' \<or> \<not> a))"
  by (simp add: well_flagged_def msg_field_def new_message_def dict_get_def)

lemma all_flagged_add:
  "all_flagged h \<Longrightarrow> well_flagged (new_message (isoformat (now E (tick w))) r c a) \<Longrightarrow>
   all_flagged (fst (add_message E h r c a w))"
  by (simp add: add_message_eq all_flagged_def)

lemma all_flagged_set_model: "all_flagged (fst (set_model E h m w)) = all_flagged h"
  by (simp add: set_model_def all_flagged_def Let_def)

lemma send_flagged:
  "all_flagged (history s) \<Longrightarrow> all_flagged (history (fst (snd (send E u s w))))"
  by (auto simp: send_def add_message_eq Let_def all_flagged_def well_flagged_new
      split: gen_outcome.splits prod.splits)

lemma body_flagged:
  "all_flagged (history s) \<Longrightarrow> all_flagged (history (fst (snd (body E s w))))"
  by (simp add: body_def Let_def split_beta send_flagged all_flagged_set_model
      split: sum.split option.split)

lemma iteration_flagged:
  "all_flagged (history s) \<Longrightarrow> all_flagged (history (fst (snd (iteration E s w))))"
proof -
  assume a: "all_flagged (history s)"
  obtain r s1 w1 where b: "body E s w = (r, s1, w1)" by (cases "body E s w")
  from body_flagged [OF a, of E w] b have c: "all_flagged (history s1)" by simp
  show ?thesis
    using b c
    by (auto simp: iteration_def add_message_eq Let_def all_flagged_def well_flagged_new
        split: sum.splits exn.splits)
qed

lemma chat_iter_flagged:
  "all_flagged (history s) \<Longrightarrow> all_flagged (history (fst (snd (chat_iter n E s w))))"
proof (induction n arbitrary: s w)
  case 0
  then show ?case by simp
next
  case (Suc n)
  obtain q s1 w1 where it: "iteration E s w = (q, s1, w1)" by (cases "iteration E s w")
  from iteration_flagged [OF Suc.prems, of E w] it have f: "all_flagged (history s1)" by simp
  show ?case
  proof (cases q)
    case True
    with it f show ?thesis by simp
  next
    case False
    with it Suc.IH [OF f, of w1] show ?thesis by simp
  qed
qed

lemma chat_start_flagged: "all_flagged (history (fst (chat_start E m w)))"
  by (simp add: chat_start_def create_def init_def set_model_def Let_def all_flagged_def)

lemma invoke_after_persist:
  "evs = persist_events E t h1 @ Invoke m c # post \<Longrightarrow> hd evs \<noteq> Invoke m c \<and> Invoke m c \<in> set evs"
  by (simp add: persist_events_def split: write_outcome.splits)

lemma triples_of_messages:
  "ms' = ms @ um # tail \<Longrightarrow> map msg_triple tail = ts \<Longrightarrow>
   map msg_triple ms' = map msg_triple ms @ msg_triple um # ts"
  by simp

lemma iteration_collapse:
  "iteration E s w = (fst (iteration E s w), fst (snd (iteration E s w)), snd (snd (iteration E s w)))"
  by simp

lemma example_inputs: "inputs (example_world ins) = ins"
  by (simp add: example_world_def)

lemma staged_messages: "messages (history staged_state) = []"
  by (simp add: staged_state_def create_eq)

lemma staged_attachment:
  "attached_file staged_state = Some 7 \<and> attached_file_name staged_state = Some ''photo.png''
   \<and> model staged_state = ''gemini-2.5-pro''"
  by (simp add: staged_state_def)

lemma failing_generate: "generate failing_env t m c = Failure ''quota exceeded''"
  by (simp add: failing_env_def)

lemma example_generate: "generate example_env t m c = Reply ''hi''"
  by (simp add: example_env_def)

lemma plain_describe: "is_plain ''describe this''"
  by code_simp

lemma plain_hello: "is_plain ''hello''"
  by code_simp

lemma plain_turn_content:
  assumes "inputs w = Line l # rest" and "is_plain l" and "iteration E s w = (stop, s', w')"
  shows "msg_triple (messages (history s') ! length (messages (history s)))
           = (JStr ''user'', JStr (strip l), JBool (attached_file s \<noteq> None))"
proof -
  from plain_turn_messages [OF assms] obtain tail where
    "messages (history s') = messages (history s) @ user_msg E s w l # tail" by blast
  then have "messages (history s') ! length (messages (history s)) = user_msg E s w l"
    by simp
  then show ?thesis by (simp add: user_msg_def msg_triple_new)
qed

lemma fresh_state_fields:
  "attached_file fresh_state = None \<and> attached_file_name fresh_state = None
   \<and> messages (history fresh_state) = [] \<and> model fresh_state = ''gemini-2.5-pro''"
  by (simp add: fresh_state_def chat_start_def create_eq split_beta)

lemma strip_hello: "strip ''  Hello  '' = ''Hello''"
  by code_simp

lemma plain_spaced_hello: "is_plain ''  Hello  ''"
  by code_simp

lemma inputs_save: "inputs (save E h w) = inputs w"
  by (simp add: save_def emit_def advance_def Let_def split: write_outcome.splits)

lemma file_turn_select:
  assumes "inputs w = Line l # Line p # rest" and "lower (strip l) = ''/file''"
  shows "body E s w = (case select_file E (w\<lparr>inputs := Line p # rest\<rparr>) of
            (Inl e, w2) \<Rightarrow> (Inl e, s, w2)
          | (Inr None, w2) \<Rightarrow> (Inr False, s, w2)
          | (Inr (Some (file_path, mime_type)), w2) \<Rightarrow>
              (case upload_file E file_path mime_type w2 of
                 (Inl e, w3) \<Rightarrow> (Inl e, s, w3)
               | (Inr handle, w3) \<Rightarrow>
                   (Inr False,
                    s\<lparr>attached_file := Some handle,
                      attached_file_name := Some (path_name E file_path)\<rparr>,
                    w3)))"
proof -
  from assms(2) have ne: "strip l \<noteq> []" by (auto simp: lower_def)
  show ?thesis
    using assms ne by (simp add: body_def read_input_def Let_def)
qed

lemma select_file_verdict:
  assumes "strip_quotes (strip p) \<noteq> []"
  shows "select_file E (w\<lparr>inputs := Line p # rest\<rparr>) =
           (case path_check E (strip_quotes (strip p)) of
              Raises e \<Rightarrow> (Inl (Exception e), w\<lparr>inputs := rest\<rparr>)
            | Missing path \<Rightarrow>
                (Inr None, emit (Say (''[ERROR] File not found: '' @ path)) (w\<lparr>inputs := rest\<rparr>))
            | NotRegular path \<Rightarrow>
                (Inr None, emit (Say (''[ERROR] Not a file: '' @ path)) (w\<lparr>inputs := rest\<rparr>))
            | Regular path \<Rightarrow> select_file E (w\<lparr>inputs := Line p # rest\<rparr>))"
  using assms
  by (simp add: select_file_def read_input_def path_check_def Let_def
      split: sum.splits bool.splits)

lemma file_turn_raises:
  assumes "inputs w = Line l # Line p # rest" and "lower (strip l) = ''/file''"
    and "strip_quotes (strip p) \<noteq> []" and "path_check E (strip_quotes (strip p)) = Raises e"
  shows "iteration E s w =
           (False,
            s\<lparr>history := fst (add_message E (history s) ''system'' (''Error: '' @ e) False
                                 (emit (Say (''[ERROR] '' @ e)) (w\<lparr>inputs := rest\<rparr>)))\<rparr>,
            snd (add_message E (history s) ''system'' (''Error: '' @ e) False
                   (emit (Say (''[ERROR] '' @ e)) (w\<lparr>inputs := rest\<rparr>))))"
  using select_file_verdict [OF assms(3), where E = E and w = w and rest = rest] assms(4)
  by (simp add: iteration_def file_turn_select [OF assms(1,2)] split_beta)

lemma file_turn_missing:
  assumes "inputs w = Line l # Line p # rest" and "lower (strip l) = ''/file''"
    and "strip_quotes (strip p) \<noteq> []" and "path_check E (strip_quotes (strip p)) = Missing path"
  shows "iteration E s w =
           (False, s, emit (Say (''[ERROR] File not found: '' @ path)) (w\<lparr>inputs := rest\<rparr>))"
  using select_file_verdict [OF assms(3), where E = E and w = w and rest = rest] assms(4)
  by (simp add: iteration_def file_turn_select [OF assms(1,2)])

lemma file_turn_not_regular:
  assumes "inputs w = Line l # Line p # rest" and "lower (strip l) = ''/file''"
    and "strip_quotes (strip p) \<noteq> []" and "path_check E (strip_quotes (strip p)) = NotRegular path"
  shows "iteration E s w =
           (False, s, emit (Say (''[ERROR] Not a file: '' @ path)) (w\<lparr>inputs := rest\<rparr>))"
  using select_file_verdict [OF assms(3), where E = E and w = w and rest = rest] assms(4)
  by (simp add: iteration_def file_turn_select [OF assms(1,2)])

text \<open>
  C1 (as amended). When a line that is no command is sent while an attachment is staged,
  the attachment is cleared if the call of the model returns a reply; if the call raises
  (or is interrupted), the staged attachment and its name are still there after the turn,
  so the next line is sent with it again.
\<close>

theorem attachment_cleared_on_reply_only:
  assumes "inputs w = Line l # rest" and "is_plain l" and "attached_file s = Some f"
    and "iteration E s w = (stop, s', w')"
  shows "(case generate E (tick w + 2) (model s) [FilePart f, TextPart (strip l)] of
            Reply t \<Rightarrow> attached_file s' = None \<and> attached_file_name s' = None
          | Failure e \<Rightarrow> attached_file s' = Some f \<and> attached_file_name s' = attached_file_name s
          | Interrupted \<Rightarrow> attached_file s' = Some f \<and> attached_file_name s' = attached_file_name s)"
  using plain_turn_attachment [OF assms(1,2,4)] assms(3)
  by (simp add: payload_def split: gen_outcome.splits)

theorem attachment_cleared_on_reply_only_witness:
  "inputs (example_world [Line ''describe this'']) = Line ''describe this'' # []
   \<and> is_plain ''describe this''
   \<and> attached_file staged_state = Some 7
   \<and> generate example_env (tick (example_world [Line ''describe this'']) + 2) (model staged_state)
        [FilePart 7, TextPart (strip ''describe this'')] = Reply ''hi''
   \<and> attached_file (fst (snd (iteration example_env staged_state
        (example_world [Line ''describe this''])))) = None
   \<and> attached_file_name (fst (snd (iteration example_env staged_state
        (example_world [Line ''describe this''])))) = None"
proof -
  let ?w = "example_world [Line ''describe this'']"
  let ?r = "iteration example_env staged_state ?w"
  have i: "inputs ?w = Line ''describe this'' # []" by (simp add: example_world_def)
  have p: "is_plain ''describe this''" by code_simp
  have a: "attached_file staged_state = Some 7" by (simp add: staged_state_def)
  have g: "generate example_env (tick ?w + 2) (model staged_state)
             [FilePart 7, TextPart (strip ''describe this'')] = Reply ''hi''"
    by (simp add: example_env_def)
  have r: "?r = (fst ?r, fst (snd ?r), snd (snd ?r))" by simp
  from attachment_cleared_on_reply_only [OF i p a r] g
  have "attached_file (fst (snd ?r)) = None \<and> attached_file_name (fst (snd ?r)) = None"
    by (simp only: gen_outcome.case)
  with i p a g show ?thesis by (intro conjI) (simp_all only: simp_thms)
qed

theorem attachment_kept_when_call_raises:
  "attached_file staged_state = Some 7
   \<and> is_plain ''describe this''
   \<and> generate failing_env 2 ''gemini-2.5-pro'' [FilePart 7, TextPart ''describe this'']
       = Failure ''quota exceeded''
   \<and> attached_file (fst (snd (iteration failing_env staged_state
        (example_world [Line ''describe this''])))) = Some 7
   \<and> attached_file (fst (snd (iteration failing_env staged_state
        (example_world [Line ''describe this''])))) \<noteq> None"
proof -
  let ?w = "example_world [Line ''describe this'']"
  let ?r = "iteration failing_env staged_state ?w"
  have a: "attached_file staged_state = Some 7" using staged_attachment by blast
  have g: "generate failing_env 2 ''gemini-2.5-pro'' [FilePart 7, TextPart ''describe this'']
             = Failure ''quota exceeded''"
    by (rule failing_generate)
  from plain_turn_attachment [OF example_inputs plain_describe iteration_collapse,
      of failing_env staged_state "[]"]
  have "attached_file (fst (snd ?r)) = attached_file staged_state"
    by (simp only: failing_generate gen_outcome.case)
  with a have b: "attached_file (fst (snd ?r)) = Some 7" by (simp only:)
  then have c: "attached_file (fst (snd ?r)) \<noteq> None" by (simp only: option.distinct simp_thms)
  from a plain_describe g b c show ?thesis by - (intro conjI)
qed

text \<open>
  C2. When a line that is no command is sent, the user message, whose has_attachment
  says whether a file part is in the payload, is appended and its write attempted before
  the model is called: the log of the turn starts with that write, then has the call; and
  whatever the call does (reply, exception, interrupt), the messages after the turn are
  the earlier messages, the user message, and what the outcome adds.
\<close>

theorem user_message_recorded_before_call:
  assumes "inputs w = Line l # rest" and "is_plain l" and "iteration E s w = (stop, s', w')"
  shows "\<exists>h1 post tail.
           messages h1 = messages (history s) @ [user_msg E s w l]
         \<and> session_file h1 = session_file (history s)
         \<and> new_events w w' = persist_events E (tick w + 1) h1 @ Invoke (model s) (payload s l) # post
         \<and> messages (history s') = messages (history s) @ user_msg E s w l # tail
         \<and> map msg_triple tail = reply_msgs (generate E (tick w + 2) (model s) (payload s l))
         \<and> msg_triple (user_msg E s w l) = (JStr ''user'', JStr (strip l), JBool (attached_file s \<noteq> None))
         \<and> (attached_file s \<noteq> None) = (\<exists>f. FilePart f \<in> set (payload s l))"
proof -
  from plain_turn_trace [OF assms] obtain h1 post where
    a: "messages h1 = messages (history s) @ [user_msg E s w l]"
       "session_file h1 = session_file (history s)"
       "new_events w w' = persist_events E (tick w + 1) h1 @ Invoke (model s) (payload s l) # post"
    by blast
  from plain_turn_messages [OF assms] obtain tail where
    b: "messages (history s') = messages (history s) @ user_msg E s w l # tail"
       "map msg_triple tail = reply_msgs (generate E (tick w + 2) (model s) (payload s l))"
    by blast
  have c: "msg_triple (user_msg E s w l) = (JStr ''user'', JStr (strip l), JBool (attached_file s \<noteq> None))"
    by (simp add: user_msg_def msg_triple_new)
  have d: "(attached_file s \<noteq> None) = (\<exists>f. FilePart f \<in> set (payload s l))"
    by (cases "attached_file s") (simp_all add: payload_def)
  from a b c d show ?thesis by blast
qed

theorem user_message_recorded_before_call_witness:
  "inputs (example_world [Line ''hello'']) = Line ''hello'' # []
   \<and> is_plain ''hello''
   \<and> map msg_triple (messages (history (fst (snd (iteration failing_env staged_state
         (example_world [Line ''hello'']))))))
       = map msg_triple (messages (history staged_state))
         @ msg_triple (user_msg failing_env staged_state (example_world [Line ''hello'']) ''hello'')
         # [(JStr ''system'', JStr ''Error: quota exceeded'', JBool False)]
   \<and> msg_triple (user_msg failing_env staged_state (example_world [Line ''hello'']) ''hello'')
       = (JStr ''user'', JStr (strip ''hello''), JBool (attached_file staged_state \<noteq> None))
   \<and> hd (new_events (example_world [Line ''hello''])
            (snd (snd (iteration failing_env staged_state (example_world [Line ''hello''])))))
       \<noteq> Invoke (model staged_state) (payload staged_state ''hello'')
   \<and> Invoke (model staged_state) (payload staged_state ''hello'')
       \<in> set (new_events (example_world [Line ''hello''])
            (snd (snd (iteration failing_env staged_state (example_world [Line ''hello''])))))"
proof -
  let ?w = "example_world [Line ''hello'']"
  let ?r = "iteration failing_env staged_state ?w"
  have i: "inputs ?w = Line ''hello'' # []" by (rule example_inputs)
  have g: "reply_msgs (generate failing_env (tick ?w + 2) (model staged_state) (payload staged_state ''hello''))
           = [(JStr ''system'', JStr ''Error: quota exceeded'', JBool False)]"
    by (simp add: failing_generate reply_msgs_def)
  from user_message_recorded_before_call [OF i plain_hello iteration_collapse]
  obtain h1 post tail where
    a: "new_events ?w (snd (snd ?r))
          = persist_events failing_env (tick ?w + 1) h1 @ Invoke (model staged_state) (payload staged_state ''hello'') # post"
    and b: "messages (history (fst (snd ?r)))
          = messages (history staged_state) @ user_msg failing_env staged_state ?w ''hello'' # tail"
    and c: "map msg_triple tail
          = reply_msgs (generate failing_env (tick ?w + 2) (model staged_state) (payload staged_state ''hello''))"
    and d: "msg_triple (user_msg failing_env staged_state ?w ''hello'')
          = (JStr ''user'', JStr (strip ''hello''), JBool (attached_file staged_state \<noteq> None))"
    by blast
  from c have c': "map msg_triple tail = [(JStr ''system'', JStr ''Error: quota exceeded'', JBool False)]"
    by (simp only: g)
  note m = triples_of_messages [OF b c']
  from invoke_after_persist [OF a]
  have e: "hd (new_events ?w (snd (snd ?r))) \<noteq> Invoke (model staged_state) (payload staged_state ''hello'')"
    and f: "Invoke (model staged_state) (payload staged_state ''hello'') \<in> set (new_events ?w (snd (snd ?r)))"
    by blast+
  from i plain_hello m d e f show ?thesis by - (intro conjI)
qed

text \<open>
  C5 (as amended). For an input line whose trimmed text is not empty and, case-folded, is
  no command, the message content that is recorded and the text that is sent to the
  model are the trimmed line: leading and trailing white space is removed from what is
  sent, and only the case-folding is confined to the matching of commands.
\<close>

theorem message_content_is_trimmed_line:
  assumes "inputs w = Line l # rest" and "is_plain l" and "iteration E s w = (stop, s', w')"
  shows "msg_triple (messages (history s') ! length (messages (history s)))
           = (JStr ''user'', JStr (strip l), JBool (attached_file s \<noteq> None))
         \<and> Invoke (model s) ((case attached_file s of None \<Rightarrow> [] | Some f \<Rightarrow> [FilePart f])
                               @ [TextPart (strip l)]) \<in> set (new_events w w')"
proof -
  from plain_turn_trace [OF assms] obtain h1 post where
    "new_events w w' = persist_events E (tick w + 1) h1 @ Invoke (model s) (payload s l) # post"
    by blast
  from invoke_after_persist [OF this]
  have "Invoke (model s) (payload s l) \<in> set (new_events w w')" by blast
  with plain_turn_content [OF assms] show ?thesis by (simp add: payload_def)
qed

theorem message_content_is_trimmed_line_witness:
  "inputs (example_world [Line ''  Hello  '']) = Line ''  Hello  '' # []
   \<and> is_plain ''  Hello  ''
   \<and> msg_triple (messages (history (fst (snd (iteration example_env fresh_state
         (example_world [Line ''  Hello  ''])))))
        ! length (messages (history fresh_state)))
       = (JStr ''user'', JStr (strip ''  Hello  ''), JBool (attached_file fresh_state \<noteq> None))"
proof -
  from message_content_is_trimmed_line [OF example_inputs plain_spaced_hello iteration_collapse,
      of example_env fresh_state "[]"]
  have "msg_triple (messages (history (fst (snd (iteration example_env fresh_state
         (example_world [Line ''  Hello  ''])))))
        ! length (messages (history fresh_state)))
       = (JStr ''user'', JStr (strip ''  Hello  ''), JBool (attached_file fresh_state \<noteq> None))"
    by blast
  with example_inputs [of "[Line ''  Hello  '']"] plain_spaced_hello show ?thesis
    by - (intro conjI)
qed

theorem raw_line_is_not_the_content:
  "is_plain ''  Hello  ''
   \<and> msg_field (messages (history (fst (snd (iteration example_env fresh_state
         (example_world [Line ''  Hello  ''])))))
        ! length (messages (history fresh_state))) ''content'' = JStr ''Hello''
   \<and> JStr ''Hello'' \<noteq> JStr ''  Hello  ''"
proof -
  from plain_turn_content [OF example_inputs plain_spaced_hello iteration_collapse,
      of example_env fresh_state "[]"]
  have "msg_field (messages (history (fst (snd (iteration example_env fresh_state
         (example_world [Line ''  Hello  ''])))))
        ! length (messages (history fresh_state))) ''content'' = JStr (strip ''  Hello  '')"
    by (simp only: msg_triple_def prod.inject)
  then have a: "msg_field (messages (history (fst (snd (iteration example_env fresh_state
         (example_world [Line ''  Hello  ''])))))
        ! length (messages (history fresh_state))) ''content'' = JStr ''Hello''"
    by (simp only: strip_hello)
  have b: "JStr ''Hello'' \<noteq> JStr ''  Hello  ''" by simp
  from plain_spaced_hello a b show ?thesis by - (intro conjI)
qed

text \<open>
  C7 (as amended). When /file is entered and the path typed next is resolved and checked
  without an exception, and does not exist or is not a regular file, the turn ends with
  the loop going on, the attachment, the messages and the rest of the session state
  unchanged, nothing written, deleted or uploaded: the two lines are consumed and one
  status line is printed. When resolving or checking the path raises, the attachment is
  unchanged as well, but the handler of chat_loop appends a system message with the text
  of the error.
\<close>

theorem file_command_on_unusable_path:
  assumes "inputs w = Line l # Line p # rest" and "lower (strip l) = ''/file''"
    and "strip_quotes (strip p) \<noteq> []"
    and "iteration E s w = (stop, s', w')"
  shows "(case path_check E (strip_quotes (strip p)) of
            Missing path \<Rightarrow>
              \<not> stop \<and> s' = s \<and> hist_dir w' = hist_dir w \<and> inputs w' = rest \<and> tick w' = tick w
              \<and> new_events w w' = [Say (''[ERROR] File not found: '' @ path)]
          | NotRegular path \<Rightarrow>
              \<not> stop \<and> s' = s \<and> hist_dir w' = hist_dir w \<and> inputs w' = rest \<and> tick w' = tick w
              \<and> new_events w w' = [Say (''[ERROR] Not a file: '' @ path)]
          | Raises e \<Rightarrow>
              \<not> stop \<and> attached_file s' = attached_file s
              \<and> attached_file_name s' = attached_file_name s \<and> model s' = model s
              \<and> inputs w' = rest
              \<and> messages (history s') = messages (history s)
                    @ [new_message (isoformat (now E (tick w))) ''system'' (''Error: '' @ e) False]
          | Regular path \<Rightarrow> True)"
proof (cases "path_check E (strip_quotes (strip p))")
  case (Raises e)
  from file_turn_raises [OF assms(1-3) Raises] assms(4) Raises show ?thesis
    by (auto simp: add_message_eq emit_def inputs_save advance_def)
next
  case (Missing path)
  from file_turn_missing [OF assms(1-3) Missing] assms(4) Missing show ?thesis
    by (auto simp: emit_def new_events_def)
next
  case (NotRegular path)
  from file_turn_not_regular [OF assms(1-3) NotRegular] assms(4) NotRegular show ?thesis
    by (auto simp: emit_def new_events_def)
next
  case (Regular path)
  then show ?thesis by simp
qed

theorem file_command_on_unusable_path_witness:
  "inputs (example_world [Line ''/FILE'', Line '' nothing.png'']) = Line ''/FILE'' # Line '' nothing.png'' # []
   \<and> lower (strip ''/FILE'') = ''/file''
   \<and> strip_quotes (strip '' nothing.png'') \<noteq> []
   \<and> path_check example_env (strip_quotes (strip '' nothing.png'')) = Missing ''nothing.png''
   \<and> fst (snd (iteration example_env staged_state (example_world [Line ''/FILE'', Line '' nothing.png''])))
       = staged_state
   \<and> hist_dir (snd (snd (iteration example_env staged_state
         (example_world [Line ''/FILE'', Line '' nothing.png'']))))
       = hist_dir (example_world [Line ''/FILE'', Line '' nothing.png''])
   \<and> new_events (example_world [Line ''/FILE'', Line '' nothing.png''])
         (snd (snd (iteration example_env staged_state
            (example_world [Line ''/FILE'', Line '' nothing.png'']))))
       = [Say (''[ERROR] File not found: '' @ ''nothing.png'')]"
proof -
  let ?w = "example_world [Line ''/FILE'', Line '' nothing.png'']"
  let ?r = "iteration example_env staged_state ?w"
  have c: "lower (strip ''/FILE'') = ''/file''" by code_simp
  have q: "strip_quotes (strip '' nothing.png'') \<noteq> []" by code_simp
  have v: "path_check example_env (strip_quotes (strip '' nothing.png'')) = Missing ''nothing.png''"
    by code_simp
  note t = file_command_on_unusable_path [OF example_inputs c q iteration_collapse,
      of example_env staged_state]
  from t have "fst (snd ?r) = staged_state \<and> hist_dir (snd (snd ?r)) = hist_dir ?w
        \<and> new_events ?w (snd (snd ?r)) = [Say (''[ERROR] File not found: '' @ ''nothing.png'')]"
    unfolding v path_verdict.case by blast
  then have "fst (snd ?r) = staged_state" and "hist_dir (snd (snd ?r)) = hist_dir ?w"
    and "new_events ?w (snd (snd ?r)) = [Say (''[ERROR] File not found: '' @ ''nothing.png'')]"
    by blast+
  with example_inputs [of "[Line ''/FILE'', Line '' nothing.png'']"] c q v show ?thesis
    by - (intro conjI)
qed

theorem file_command_records_resolution_error:
  "lower (strip ''/file'') = ''/file''
   \<and> path_exists homeless_env ''~nosuchuser/x.png'' = Inr False
   \<and> messages (history staged_state) = []
   \<and> map msg_triple (messages (history (fst (snd (iteration homeless_env staged_state
         (example_world [Line ''/file'', Line ''~nosuchuser/x.png'']))))))
       = [(JStr ''system'', JStr ''Error: Could not determine home directory.'', JBool False)]"
proof -
  let ?w = "example_world [Line ''/file'', Line ''~nosuchuser/x.png'']"
  let ?r = "iteration homeless_env staged_state ?w"
  have c: "lower (strip ''/file'') = ''/file''" by code_simp
  have q: "strip_quotes (strip ''~nosuchuser/x.png'') \<noteq> []" by code_simp
  have x: "path_exists homeless_env ''~nosuchuser/x.png'' = Inr False"
    by (simp add: homeless_env_def example_env_def)
  have v: "path_check homeless_env (strip_quotes (strip ''~nosuchuser/x.png''))
             = Raises ''Could not determine home directory.''"
    by code_simp
  note r = file_turn_raises [OF example_inputs c q v, of staged_state]
  have "messages (history (fst (snd ?r)))
          = messages (history staged_state)
            @ [new_message (isoformat (now homeless_env (tick (emit (Say (''[ERROR] '' @ ''Could not determine home directory.'')) (?w\<lparr>inputs := []\<rparr>))))) ''system''
                 (''Error: '' @ ''Could not determine home directory.'') False]"
    unfolding r by (simp add: add_message_eq)
  then have m: "map msg_triple (messages (history (fst (snd ?r))))
          = [(JStr ''system'', JStr ''Error: Could not determine home directory.'', JBool False)]"
    by (simp add: staged_messages msg_triple_new)
  from c x staged_messages m show ?thesis by - (intro conjI)
qed

section \<open>Whole runs of the loop\<close>

text \<open>
  C10. After any number of turns of chat_loop, every message of the session has one of
  the roles user, assistant and system, and a message whose role is not user has
  has_attachment false: add_message is called with the flag only for the user message.
\<close>

theorem attachment_flag_only_on_user_messages:
  assumes "chat_loop n E m w = (stop, s, w')" and "msg \<in> set (messages (history s))"
  shows "well_flagged msg"
proof -
  obtain s0 w0 where st: "chat_start E m w = (s0, w0)" by (cases "chat_start E m w")
  from chat_start_flagged [of E m w] st have "all_flagged (history s0)" by simp
  from chat_iter_flagged [OF this, of n E w0] assms(1) st have "all_flagged (history s)"
    by (simp add: chat_loop_def)
  with assms(2) show ?thesis by (simp add: all_flagged_def list_all_iff)
qed

theorem attachment_flag_only_on_user_messages_witness:
  "last (messages (history (fst (snd (chat_loop 1 failing_env ''gemini-2.5-pro''
      (example_world [Line ''hello''])))))) 
     \<in> set (messages (history (fst (snd (chat_loop 1 failing_env ''gemini-2.5-pro''
      (example_world [Line ''hello'']))))))
   \<and> msg_field (last (messages (history (fst (snd (chat_loop 1 failing_env ''gemini-2.5-pro''
      (example_world [Line ''hello''])))))))  ''role'' = JStr ''system''
   \<and> well_flagged (last (messages (history (fst (snd (chat_loop 1 failing_env ''gemini-2.5-pro''
      (example_world [Line ''hello''])))))))"
proof -
  let ?r = "chat_loop 1 failing_env ''gemini-2.5-pro'' (example_world [Line ''hello''])"
  have r: "?r = (fst ?r, fst (snd ?r), snd (snd ?r))" by simp
  have ne: "messages (history (fst (snd ?r))) \<noteq> []" by code_simp
  then have mem: "last (messages (history (fst (snd ?r)))) \<in> set (messages (history (fst (snd ?r))))"
    by (rule last_in_set)
  have role: "msg_field (last (messages (history (fst (snd ?r))))) ''role'' = JStr ''system''"
    by code_simp
  from attachment_flag_only_on_user_messages [OF r mem] mem role show ?thesis
    by - (intro conjI)
qed

text \<open>
  C9. A run in which every write succeeds: one message is sent and answered, then
  /history, c and y delete every record, the one of the running session included, then
  /quit. The loop ends and reports the chat as saved, the session in memory has two
  messages, and the history directory holds no record of it.
\<close>

theorem quit_after_clearing_history_leaves_no_record:
  "fst (chat_loop 3 example_env ''gemini-2.5-pro''
         (example_world [Line ''hello'', Line ''/history'', Line ''c'', Line ''y'', Line ''/quit'']))
   \<and> inputs (snd (snd (chat_loop 3 example_env ''gemini-2.5-pro''
         (example_world [Line ''hello'', Line ''/history'', Line ''c'', Line ''y'', Line ''/quit''])))) = []
   \<and> map_of (metadata (history (fst (snd (chat_loop 3 example_env ''gemini-2.5-pro''
         (example_world [Line ''hello'', Line ''/history'', Line ''c'', Line ''y'', Line ''/quit''])))))) 
        ''message_count'' = Some (JInt 2)
   \<and> map_of (hist_dir (snd (snd (chat_loop 3 example_env ''gemini-2.5-pro''
         (example_world [Line ''hello'', Line ''/history'', Line ''c'', Line ''y'', Line ''/quit''])))))
        (session_file (history (fst (snd (chat_loop 3 example_env ''gemini-2.5-pro''
         (example_world [Line ''hello'', Line ''/history'', Line ''c'', Line ''y'', Line ''/quit''])))))) = None
   \<and> filter (\<lambda>e. case e of WriteFailed f d \<Rightarrow> True | Say t \<Rightarrow> take 9 t = ''[OK] Chat'' | _ \<Rightarrow> False)
        (trace (snd (snd (chat_loop 3 example_env ''gemini-2.5-pro''
         (example_world [Line ''hello'', Line ''/history'', Line ''c'', Line ''y'', Line ''/quit''])))))
       = [Say ''[OK] Chat saved to: chat_20250307_090530.json'']"
  by code_simp

section \<open>Listing the saved sessions\<close>

lemma digit_less: "(digit a < digit b) = (a mod 10 < b mod 10)"
  by (simp add: digit_def less_char_def)

lemma digit_eq: "(digit a = digit b) = (a mod 10 = b mod 10)"
proof -
  have "(digit a = digit b) = ((of_char (digit a) :: nat) = of_char (digit b))"
    by (simp only: of_char_eq_iff)
  also have "\<dots> = (a mod 10 = b mod 10)" by (simp add: digit_def)
  finally show ?thesis .
qed

lemma lex_divmod:
  fixes a b k :: nat
  assumes "0 < k"
  shows "(a div k < b div k \<or> a div k = b div k \<and> (a mod k < b mod k \<or> a mod k = b mod k \<and> P))
         = (a < b \<or> a = b \<and> P)"
proof -
  have a: "a = k * (a div k) + a mod k" and b: "b = k * (b div k) + b mod k" by simp_all
  have lt: "a div k < b div k \<Longrightarrow> a < b"
    using assms by (metis div_le_mono leD leI)
  have eq: "a div k = b div k \<Longrightarrow> (a < b) = (a mod k < b mod k)"
    using a b by (metis nat_add_left_cancel_less)
  have eq2: "a div k = b div k \<Longrightarrow> (a = b) = (a mod k = b mod k)"
    using a b by metis
  have gt: "b div k < a div k \<Longrightarrow> b < a"
    using assms by (metis div_le_mono leD leI)
  show ?thesis
    using lt eq eq2 gt by (metis less_asym linorder_neqE_nat)
qed

lemma pad2_less:
  assumes "a < 100" and "b < 100"
  shows "(pad2 a @ xs < pad2 b @ ys) = (a < b \<or> a = b \<and> xs < ys)"
proof -
  from assms have "a div 10 mod 10 = a div 10" "b div 10 mod 10 = b div 10" by simp_all
  then have "(pad2 a @ xs < pad2 b @ ys) =
     (a div 10 < b div 10 \<or> a div 10 = b div 10 \<and> (a mod 10 < b mod 10 \<or> a mod 10 = b mod 10 \<and> xs < ys))"
    by (simp add: pad2_def digit_less digit_eq)
  also have "\<dots> = (a < b \<or> a = b \<and> xs < ys)" by (rule lex_divmod) simp
  finally show ?thesis .
qed

lemma mod100_div10: "(a::nat) mod 100 div 10 mod 10 = a div 10 mod 10"
proof -
  have "a mod (10 * 10) = 10 * (a div 10 mod 10) + a mod 10" by (rule mod_mult2_eq)
  then have "a mod 100 = 10 * (a div 10 mod 10) + a mod 10" by simp
  then have "a mod 100 div 10 = a div 10 mod 10" by simp
  then show ?thesis by simp
qed

lemma pad4_split: "pad4 a = pad2 (a div 100 mod 100) @ pad2 (a mod 100)"
proof -
  have "a div 100 div 10 = a div 1000"
    by (simp add: div_mult2_eq)
  with mod100_div10 [of "a div 100"]
  have "a div 100 mod 100 div 10 mod 10 = a div 1000 mod 10"
    by simp
  moreover have  "a div 100 mod 100 mod 10 = a div 100 mod 10"
    by (simp add: mod_mod_cancel)
  moreover have "a mod 100 div 10 mod 10 = a div 10 mod 10"
    by (rule mod100_div10)
  moreover have "a mod 100 mod 10 = a mod 10"
    by (simp add: mod_mod_cancel)
  ultimately show ?thesis
    by (simp add: pad4_def pad2_def digit_eq)
qed

lemma pad4_less:
  assumes "a < 10000" and "b < 10000"
  shows "(pad4 a @ xs < pad4 b @ ys) = (a < b \<or> a = b \<and> xs < ys)"
proof -
  from assms have d: "a div 100 mod 100 = a div 100" "b div 100 mod 100 = b div 100" by simp_all
  have "(pad4 a @ xs < pad4 b @ ys) =
        (a div 100 < b div 100 \<or> a div 100 = b div 100 \<and> (pad2 (a mod 100) @ xs < pad2 (b mod 100) @ ys))"
    using assms by (simp add: pad4_split d pad2_less)
  also have "\<dots> = (a div 100 < b div 100 \<or> a div 100 = b div 100 \<and>
        (a mod 100 < b mod 100 \<or> a mod 100 = b mod 100 \<and> xs < ys))"
    by (simp add: pad2_less)
  also have "\<dots> = (a < b \<or> a = b \<and> xs < ys)" by (rule lex_divmod) simp
  finally show ?thesis .
qed

lemma session_name_less:
  assumes "valid_time d1" and "valid_time d2"
  shows "(session_name d1 < session_name d2) = earlier d1 d2"
  using assms
  by (simp add: session_name_def strftime_id_def earlier_def stamp_def valid_time_def pad4_less pad2_less)


lemma glob_session_name: "glob_chat (session_name d)"
  by (simp add: glob_chat_def session_name_def strftime_id_def pad4_def pad2_def)

lemma list_sessions_set:
  "set (list_sessions w) = {n \<in> fst ` set (hist_dir w). glob_chat n}"
  by (auto simp: list_sessions_def)

lemma list_sessions_desc: "sorted_wrt (\<lambda>a b. b \<le> a) (list_sessions w)"
  by (simp add: list_sessions_def sorted_wrt_rev)

lemma list_sessions_distinct:
  "distinct (map fst (hist_dir w)) \<Longrightarrow> distinct (list_sessions w)"
  by (simp add: list_sessions_def)

lemma newest_first:
  assumes "i < j" and "j < length (list_sessions w)"
    and "list_sessions w ! i = session_name d1" and "list_sessions w ! j = session_name d2"
    and "valid_time d1" and "valid_time d2"
  shows "\<not> earlier d1 d2"
proof -
  from sorted_wrt_nth_less [OF list_sessions_desc assms(1,2)] assms(3,4)
  have "session_name d2 \<le> session_name d1" by simp
  then have "\<not> session_name d1 < session_name d2" by simp
  with session_name_less [OF assms(5,6)] show ?thesis by simp
qed

lemma hist_dir_load: "hist_dir (snd (load_session p w)) = hist_dir w"
  by (simp add: load_session_def emit_def split: option.splits file_content.splits)

lemma load_unreadable:
  "unreadable w p \<Longrightarrow> load_session p w = (None, emit (LoadError p) w)"
  by (simp add: unreadable_def load_session_def split: option.splits file_content.splits)

lemma list_lines_skip:
  "unreadable w p \<Longrightarrow> list_lines i (p # ps) w = list_lines (Suc i) ps (emit (LoadError p) w)"
  by (simp add: load_unreadable)

lemma summary_line_ok: "has_created j \<Longrightarrow> \<exists>ev. summary_line i j = Inr ev"
  by (auto simp: has_created_def summary_line_def dict_get_def split: json.splits option.splits)

lemma listable_emit: "listable (emit e w) p = listable w p"
  by (simp add: listable_def emit_def)

lemma listable_load: "listable (snd (load_session q w)) p = listable w p"
  by (simp add: listable_def hist_dir_load)

lemma load_listable:
  "listable w p \<Longrightarrow> load_session p w = (Some j, w') \<Longrightarrow> has_created j"
  by (auto simp: listable_def load_session_def split: option.splits file_content.splits if_splits)

lemma list_lines_total:
  "\<forall>p \<in> set ps. listable w p \<Longrightarrow> fst (list_lines i ps w) = Inr ()"
proof (induction ps arbitrary: i w)
  case Nil
  then show ?case by simp
next
  case (Cons p ps)
  obtain r w1 where l: "load_session p w = (r, w1)" by (cases "load_session p w")
  from l have w1: "\<forall>q \<in> set ps. listable w1 q"
    using Cons.prems listable_load [of p w] by simp
  show ?case
  proof (cases r)
    case None
    with l Cons.IH [OF w1] show ?thesis by simp
  next
    case (Some j)
    from Cons.prems have "listable w p" by simp
    from load_listable [OF this] l Some have "has_created j" by simp
    from summary_line_ok [OF this, of i] obtain ev where ev: "summary_line i j = Inr ev" ..
    from w1 have "\<forall>q \<in> set ps. listable (emit ev w1) q" by (simp add: listable_emit)
    from Cons.IH [OF this] Cons.IH [OF w1] l Some ev show ?thesis by simp
  qed
qed

lemma unreadable_emit: "unreadable (emit e w) p = unreadable w p"
  by (simp add: unreadable_def emit_def)

lemma unreadable_load: "unreadable (snd (load_session q w)) p = unreadable w p"
  by (simp add: unreadable_def hist_dir_load)

lemma inputs_load: "inputs (snd (load_session q w)) = inputs w"
  by (simp add: load_session_def emit_def split: option.splits file_content.splits)

lemma inputs_list_lines: "inputs (snd (list_lines k ps w)) = inputs w"
proof (induction ps arbitrary: k w)
  case Nil
  then show ?case by simp
next
  case (Cons p ps)
  obtain r w1 where l: "load_session p w = (r, w1)" by (cases "load_session p w")
  from inputs_load [of p w] l have i: "inputs w1 = inputs w" by simp
  show ?case
    using l i Cons.IH [of "Suc k" w1]
    by (auto simp: emit_def Cons.IH split: option.splits sum.splits)
qed

lemma list_lines_logs:
  "\<forall>p \<in> set ps. listable w p \<Longrightarrow>
   \<exists>evs. trace (snd (list_lines k ps w)) = trace w @ evs
         \<and> (\<forall>p \<in> set ps. unreadable w p \<longrightarrow> LoadError p \<in> set evs)"
proof (induction ps arbitrary: k w)
  case Nil
  then show ?case by simp
next
  case (Cons p ps)
  obtain r w1 where l: "load_session p w = (r, w1)" by (cases "load_session p w")
  from l have lis1: "\<forall>q \<in> set ps. listable w1 q"
    using Cons.prems listable_load [of p w] by simp
  from l have unr1: "\<And>q. unreadable w1 q = unreadable w q"
    using unreadable_load [of p w] by simp
  show ?case
  proof (cases "unreadable w p")
    case True
    from load_unreadable [OF True] l have w1: "w1 = emit (LoadError p) w" and r: "r = None" by simp_all
    from Cons.IH [OF lis1, of "Suc k"] obtain evs where
      e: "trace (snd (list_lines (Suc k) ps w1)) = trace w1 @ evs"
         "\<forall>q \<in> set ps. unreadable w1 q \<longrightarrow> LoadError q \<in> set evs" by blast
    from e w1 have "trace (snd (list_lines (Suc k) ps w1)) = trace w @ (LoadError p # evs)"
      by (simp add: emit_def)
    moreover from e(2) unr1 have "\<forall>q \<in> set (p # ps). unreadable w q \<longrightarrow> LoadError q \<in> set (LoadError p # evs)"
      by simp
    moreover from l r have "list_lines k (p # ps) w = list_lines (Suc k) ps w1" by simp
    ultimately show ?thesis by metis
  next
    case False
    then obtain j where pj: "map_of (hist_dir w) p = Some (Parsed j)"
      by (auto simp: unreadable_def split: option.splits file_content.splits)
    with l have w1: "w1 = w" by (simp add: load_session_def)
    from Cons.prems pj have hc: "has_created j" by (simp add: listable_def)
    from summary_line_ok [OF hc, of k] obtain ev where ev: "summary_line k j = Inr ev" ..
    from hc have tr: "truthy j"
      by (auto simp: has_created_def truthy_def split: json.splits option.splits)
    from hc have nn: "j \<noteq> JNull" by (auto simp: has_created_def)
    from l pj nn have r: "r = Some j" by (simp add: load_session_def)
    let ?w2 = "emit ev w"
    from Cons.prems have lis2: "\<forall>q \<in> set ps. listable ?w2 q" by (simp add: listable_emit)
    from Cons.IH [OF lis2, of "Suc k"] obtain evs where
      e: "trace (snd (list_lines (Suc k) ps ?w2)) = trace ?w2 @ evs"
         "\<forall>q \<in> set ps. unreadable ?w2 q \<longrightarrow> LoadError q \<in> set evs" by blast
    from e have "trace (snd (list_lines (Suc k) ps ?w2)) = trace w @ (ev # evs)"
      by (simp add: emit_def)
    moreover from e(2) False have "\<forall>q \<in> set (p # ps). unreadable w q \<longrightarrow> LoadError q \<in> set (ev # evs)"
      by (simp add: unreadable_emit)
    moreover from l r w1 tr ev have "list_lines k (p # ps) w = list_lines (Suc k) ps ?w2" by simp
    ultimately show ?thesis by metis
  qed
qed

lemma list_lines_new_events:
  assumes "\<forall>p \<in> set ps. listable w p" and "q \<in> set ps" and "unreadable w q"
  shows "LoadError q \<in> set (new_events w (snd (list_lines k ps w)))"
proof -
  from list_lines_logs [OF assms(1), of k] obtain evs where
    e: "trace (snd (list_lines k ps w)) = trace w @ evs"
       "\<forall>p \<in> set ps. unreadable w p \<longrightarrow> LoadError p \<in> set evs" by blast
  from e(1) have "new_events w (snd (list_lines k ps w)) = evs" by (simp add: new_events_def)
  with e(2) assms(2,3) show ?thesis by simp
qed

lemma view_history_back:
  assumes "list_sessions w \<noteq> []" and "\<forall>p \<in> set (take 10 (list_sessions w)). listable w p"
    and "inputs w = Line l # rest" and "lower (strip l) = ''0''"
  shows "fst (view_history E w) = Inr ()"
proof -
  obtain r w1 where ll: "list_lines 1 (take 10 (list_sessions w)) w = (r, w1)"
    by (cases "list_lines 1 (take 10 (list_sessions w)) w")
  from list_lines_total [OF assms(2), of 1] ll have r: "r = Inr ()" by simp
  from inputs_list_lines [of 1 "take 10 (list_sessions w)" w] ll assms(3)
  have "inputs w1 = Line l # rest" by simp
  then have "read_input w1 = (Inr l, w1\<lparr>inputs := rest\<rparr>)" by (simp add: read_input_def)
  with assms(1,4) ll r show ?thesis
    by (simp add: view_history_def Let_def)
qed

text \<open>
  The tolerance of the listing ends at the parser: a file that holds JSON of another
  shape than a record is loaded, and the listing raises on it.
\<close>

lemma listing_raises_on_foreign_json:
  assumes "map_of (hist_dir w) p = Some (Parsed (JArr [JInt 1]))"
  shows "list_lines k (p # ps) w = (Inl (no_attribute (JArr [JInt 1]) ''get''), w)"
  using assms by (simp add: load_session_def truthy_def summary_line_def)

lemma summary_line_created:
  "has_created j \<Longrightarrow> summary_line k j = Inr (record_summary k j) \<and> truthy j \<and> j \<noteq> JNull"
  by (auto simp: has_created_def summary_line_def record_summary_def meta_of_def dict_get_def
      truthy_def split: json.splits option.splits)

lemma listing_events_trace: "listing_events (w\<lparr>trace := t\<rparr>) k ps = listing_events w k ps"
  by (induction ps arbitrary: k) (simp_all add: line_events_def)

lemma listable_trace: "listable (w\<lparr>trace := t\<rparr>) p = listable w p"
  by (simp add: listable_def)

lemma list_sessions_trace: "list_sessions (w\<lparr>trace := t\<rparr>) = list_sessions w"
  by (simp add: list_sessions_def)

lemma list_lines_step:
  assumes "listable w p"
  shows "list_lines k (p # ps) w = list_lines (Suc k) ps (w\<lparr>trace := trace w @ line_events w k p\<rparr>)"
proof (cases "unreadable w p")
  case True
  then have "line_events w k p = [LoadError p]"
    by (simp add: unreadable_def line_events_def split: option.splits file_content.splits)
  with load_unreadable [OF True] show ?thesis by (simp add: emit_def)
next
  case False
  then obtain j where pj: "map_of (hist_dir w) p = Some (Parsed j)"
    by (auto simp: unreadable_def split: option.splits file_content.splits)
  with assms have "has_created j" by (simp add: listable_def)
  from summary_line_created [OF this, of k]
  have sl: "summary_line k j = Inr (record_summary k j)" and tr: "truthy j" and nn: "j \<noteq> JNull"
    by simp_all
  from pj nn have ld: "load_session p w = (Some j, w)" by (simp add: load_session_def)
  from pj have le: "line_events w k p = [record_summary k j]" by (simp add: line_events_def)
  from ld tr sl le show ?thesis by (simp add: emit_def)
qed

lemma list_lines_exact:
  "\<forall>p \<in> set ps. listable w p \<Longrightarrow>
   list_lines k ps w = (Inr (), w\<lparr>trace := trace w @ listing_events w k ps\<rparr>)"
proof (induction ps arbitrary: k w)
  case Nil
  then show ?case by simp
next
  case (Cons p ps)
  let ?w1 = "w\<lparr>trace := trace w @ line_events w k p\<rparr>"
  from Cons.prems have "listable w p" by simp
  then have step: "list_lines k (p # ps) w = list_lines (Suc k) ps ?w1" by (rule list_lines_step)
  from Cons.prems have "\<forall>q \<in> set ps. listable ?w1 q" by (simp add: listable_trace)
  from Cons.IH [OF this, of "Suc k"]
  have "list_lines (Suc k) ps ?w1 = (Inr (), ?w1\<lparr>trace := trace ?w1 @ listing_events ?w1 (Suc k) ps\<rparr>)" .
  with step show ?case by (simp add: listing_events_trace)
qed

lemma view_history_listing:
  assumes "list_sessions w \<noteq> []" and "\<forall>p \<in> set (take 10 (list_sessions w)). listable w p"
    and "inputs w = Line l # rest" and "lower (strip l) = ''0''"
  shows "view_history E w =
           (Inr (), w\<lparr>trace := trace w @ listing_events w 1 (take 10 (list_sessions w)),
                      inputs := rest\<rparr>)"
  using assms(1,3,4) list_lines_exact [OF assms(2), of 1]
  by (simp add: view_history_def Let_def read_input_def)

lemma created_ok_init: "created_ok (fst (init E w))"
  by (simp add: init_def created_ok_def Let_def)

lemma created_ok_add: "created_ok h \<Longrightarrow> created_ok (fst (add_message E h r c a w))"
  by (simp add: add_message_eq created_ok_def update_conv')

lemma created_ok_set_model: "created_ok h \<Longrightarrow> created_ok (fst (set_model E h m w))"
  by (simp add: set_model_def created_ok_def Let_def update_conv')

lemma created_ok_ops: "created_ok (fst hw) \<Longrightarrow> created_ok (fst (apply_ops E xs hw))"
proof (induction xs arbitrary: hw)
  case Nil
  then show ?case by simp
next
  case (Cons x xs)
  from Cons.prems have "created_ok (fst (apply_op E x hw))"
    by (cases x; cases hw) (simp_all add: created_ok_add created_ok_set_model)
  from Cons.IH [OF this] show ?case by simp
qed

lemma created_record: "created_ok h \<Longrightarrow> has_created (record_of h)"
  by (simp add: created_ok_def has_created_def record_of_def split: option.splits json.splits)

text \<open>
  C8 (as amended). list_sessions returns the name of every file of the history directory
  that matches chat_*.json, in descending order of the names, without loading any: a file
  that cannot be read is in the list as well. The names that __init__ derives from the
  clock are ordered as their timestamps are, so a session listed before another is not
  the earlier one. The listing of view_history goes through the first ten names of that
  list, in that order: for a file that holds a record it shows one numbered line with the
  creation time, the model and the message count, and a file that cannot be opened or
  parsed is skipped with a logged error and the loop goes on. Every record that the
  program writes is one that the listing shows.
\<close>

theorem listing_shows_ten_newest_and_skips_unreadable:
  "set (list_sessions w) = {n \<in> fst ` set (hist_dir w). glob_chat n}
   \<and> sorted_wrt (\<lambda>a b. b \<le> a) (list_sessions w)
   \<and> glob_chat (session_name d1)
   \<and> (valid_time d1 \<and> valid_time d2 \<longrightarrow> (session_name d1 < session_name d2) = earlier d1 d2)
   \<and> (i < j \<and> j < length (list_sessions w) \<and> list_sessions w ! i = session_name d1
       \<and> list_sessions w ! j = session_name d2 \<and> valid_time d1 \<and> valid_time d2
       \<longrightarrow> \<not> earlier d1 d2)
   \<and> (unreadable w p \<longrightarrow>
        list_lines k (p # ps) w = list_lines (Suc k) ps (emit (LoadError p) w))
   \<and> ((\<forall>q \<in> set qs. listable w q) \<longrightarrow>
        list_lines k' qs w = (Inr (), w\<lparr>trace := trace w @ listing_events w k' qs\<rparr>))
   \<and> (list_sessions w \<noteq> [] \<and> (\<forall>q \<in> set (take 10 (list_sessions w)). listable w q)
       \<and> inputs w = Line l # rest \<and> lower (strip l) = ''0''
       \<longrightarrow> view_history E w =
             (Inr (), w\<lparr>trace := trace w @ listing_events w 1 (take 10 (list_sessions w)),
                        inputs := rest\<rparr>))
   \<and> (apply_ops E ops (init E w0) = (h, w1) \<longrightarrow> has_created (record_of h))"
proof (intro conjI impI)
  show "set (list_sessions w) = {n \<in> fst ` set (hist_dir w). glob_chat n}"
    by (rule list_sessions_set)
  show "sorted_wrt (\<lambda>a b. b \<le> a) (list_sessions w)" by (rule list_sessions_desc)
  show "glob_chat (session_name d1)" by (rule glob_session_name)
next
  assume "valid_time d1 \<and> valid_time d2"
  then show "(session_name d1 < session_name d2) = earlier d1 d2"
    by (simp add: session_name_less)
next
  assume a: "i < j \<and> j < length (list_sessions w) \<and> list_sessions w ! i = session_name d1
       \<and> list_sessions w ! j = session_name d2 \<and> valid_time d1 \<and> valid_time d2"
  then show "\<not> earlier d1 d2"
    using newest_first [of i j w d1 d2] by blast
next
  assume "unreadable w p"
  then show "list_lines k (p # ps) w = list_lines (Suc k) ps (emit (LoadError p) w)"
    by (rule list_lines_skip)
next
  assume "\<forall>q \<in> set qs. listable w q"
  then show "list_lines k' qs w = (Inr (), w\<lparr>trace := trace w @ listing_events w k' qs\<rparr>)"
    by (rule list_lines_exact)
next
  assume "list_sessions w \<noteq> [] \<and> (\<forall>q \<in> set (take 10 (list_sessions w)). listable w q)
       \<and> inputs w = Line l # rest \<and> lower (strip l) = ''0''"
  then show "view_history E w =
             (Inr (), w\<lparr>trace := trace w @ listing_events w 1 (take 10 (list_sessions w)),
                        inputs := rest\<rparr>)"
    using view_history_listing [of w l rest E] by blast
next
  assume "apply_ops E ops (init E w0) = (h, w1)"
  with created_ok_ops [of "init E w0" E ops] created_ok_init [of E w0]
  have "created_ok h" by simp
  then show "has_created (record_of h)" by (rule created_record)
qed

theorem listing_shows_ten_newest_and_skips_unreadable_witness:
  "valid_time example_time \<and> valid_time older_time
   \<and> list_sessions example_dir = [session_name example_time, session_name older_time]
   \<and> \<not> earlier example_time older_time
   \<and> unreadable example_dir (session_name older_time)
   \<and> list_all (listable example_dir) (list_sessions example_dir)
   \<and> list_lines 1 (list_sessions example_dir) example_dir
       = (Inr (), example_dir\<lparr>trace := trace example_dir
                                  @ listing_events example_dir 1 (list_sessions example_dir)\<rparr>)
   \<and> listing_events example_dir 1 (list_sessions example_dir)
       = [record_summary 1 (record_of (history fresh_state)), LoadError (session_name older_time)]
   \<and> is_list_line (record_summary 1 (record_of (history fresh_state)))"
proof -
  have v1: "valid_time example_time" by code_simp
  have v2: "valid_time older_time" by code_simp
  have ls: "list_sessions example_dir = [session_name example_time, session_name older_time]"
    by code_simp
  have un: "unreadable example_dir (session_name older_time)" by code_simp
  have la: "list_all (listable example_dir) (list_sessions example_dir)" by code_simp
  then have lis: "\<forall>q \<in> set (list_sessions example_dir). listable example_dir q"
    by (simp only: list_all_iff)
  have ev: "listing_events example_dir 1 (list_sessions example_dir)
       = [record_summary 1 (record_of (history fresh_state)), LoadError (session_name older_time)]"
    by code_simp
  have il: "is_list_line (record_summary 1 (record_of (history fresh_state)))"
    by (simp add: is_list_line_def record_summary_def)
  from ls have ix: "(0::nat) < 1 \<and> 1 < length (list_sessions example_dir)
      \<and> list_sessions example_dir ! 0 = session_name example_time
      \<and> list_sessions example_dir ! 1 = session_name older_time
      \<and> valid_time example_time \<and> valid_time older_time"
    using v1 v2 by simp
  note t = listing_shows_ten_newest_and_skips_unreadable
    [where w = example_dir and ?d1.0 = example_time and ?d2.0 = older_time and i = 0 and j = 1
       and qs = "list_sessions example_dir" and k' = 1]
  from t ix have ne: "\<not> earlier example_time older_time" by blast
  from t lis have ex: "list_lines 1 (list_sessions example_dir) example_dir
       = (Inr (), example_dir\<lparr>trace := trace example_dir
                                  @ listing_events example_dir 1 (list_sessions example_dir)\<rparr>)"
    by blast
  from v1 v2 ls ne un la ex ev il show ?thesis by - (intro conjI)
qed

theorem list_keeps_unreadable_and_listing_stops_at_ten:
  "length (filter (\<lambda>e. glob_chat (fst e) \<and> snd e \<noteq> Malformed) (hist_dir crowded_dir)) = 11
   \<and> length (list_sessions crowded_dir) = 12
   \<and> unreadable crowded_dir (session_name (day_time 12))
   \<and> session_name (day_time 12) \<in> set (list_sessions crowded_dir)
   \<and> fst (view_history example_env crowded_dir) = Inr ()
   \<and> length (filter is_list_line (trace (snd (view_history example_env crowded_dir)))) = 9"
  by code_simp

end
